theory Spec2Isabelle
  imports Complex_Main
begin

section \<open>Strings and the regular expressions built by \<open>pattern_match\<close>\<close>

text \<open>
  \<open>tests/helpers/testutils.py\<close>, \<open>pattern_match\<close>, builds a regular expression from
  the pattern and hands it to Python's \<open>re.fullmatch\<close>:
  \<^verbatim>\<open>
  re_pattern = '.*'.join(re.escape(part) for part in pattern.split('*'))
  return re.fullmatch(re_pattern, value, flags=re.DOTALL) is not None
  \<close>
  The model follows that line step by step: \<open>str.split\<close>, \<open>re.escape\<close>, \<open>str.join\<close>,
  and then a parser and a backtracking matcher for the fragment of the \<open>re\<close> syntax
  that such a string can contain (literal characters, backslash escapes of
  non-alphanumeric characters, \<open>.\<close>, and the postfix \<open>*\<close>). A pattern outside the
  fragment parses to \<open>None\<close>; this is where \<open>re\<close> would either raise or need syntax
  that is not modelled.
\<close>

definition backslash :: char where
  "backslash = CHR 0x5C"

definition newline :: char where
  "newline = CHR 0x0A"

text \<open>\<open>s.split(sep)\<close> for a one-character separator: never the empty list.\<close>

fun str_split :: "char \<Rightarrow> string \<Rightarrow> string list" where
  "str_split sep [] = [[]]"
| "str_split sep (c # cs) =
     (let parts = str_split sep cs
      in if c = sep then [] # parts else (c # hd parts) # tl parts)"

text \<open>\<open>sep.join(parts)\<close>.\<close>

fun str_join :: "string \<Rightarrow> string list \<Rightarrow> string" where
  "str_join sep [] = []"
| "str_join sep [p] = p"
| "str_join sep (p # q # ps) = p @ sep @ str_join sep (q # ps)"

text \<open>
  \<open>re.escape\<close> (Python 3.7 and later) puts a backslash before each of the characters
  \<^verbatim>\<open>()[]{}?*+-|^$\.&~#\<close>, the space, and tab, newline, carriage return, vertical tab and
  form feed; every other character is left as it is.
\<close>

definition re_special_chars :: "char list" where
  "re_special_chars =
     ''()[]{}?*+-|^$'' @ [backslash] @ ''.&~# '' @
     [CHR 0x09, CHR 0x0A, CHR 0x0D, CHR 0x0B, CHR 0x0C]"

definition re_escape_char :: "char \<Rightarrow> string" where
  "re_escape_char c = (if c \<in> set re_special_chars then [backslash, c] else [c])"

definition re_escape :: "string \<Rightarrow> string" where
  "re_escape s = concat (map re_escape_char s)"

datatype re_atom = Lit char | AnyChar

datatype re_item = Once re_atom | Star re_atom

definition is_ascii_alnum :: "char \<Rightarrow> bool" where
  "is_ascii_alnum c =
     (let n = (of_char c :: nat)
      in (48 \<le> n \<and> n \<le> 57) \<or> (65 \<le> n \<and> n \<le> 90) \<or> (97 \<le> n \<and> n \<le> 122))"

text \<open>The characters with a meaning of their own where an atom is expected.\<close>

definition re_meta_chars :: "char list" where
  "re_meta_chars = ''.^$*+?{}[]|()'' @ [backslash]"

text \<open>
  One atom from the front of a pattern: a backslash followed by a non-alphanumeric
  character is that character (a backslash before a letter or a digit is a class or a
  group reference, outside the fragment), an unescaped \<open>.\<close> is the wildcard, any other
  unescaped metacharacter is outside the fragment.
\<close>

fun re_take_atom :: "string \<Rightarrow> (re_atom \<times> string) option" where
  "re_take_atom [] = None"
| "re_take_atom (c # cs) =
     (if c = backslash then
        (case cs of
           [] \<Rightarrow> None
         | e # rest \<Rightarrow> if is_ascii_alnum e then None else Some (Lit e, rest))
      else if c = CHR ''.'' then Some (AnyChar, cs)
      else if c \<in> set re_meta_chars then None
      else Some (Lit c, cs))"

lemma re_take_atom_shorter:
  "re_take_atom s = Some (a, r) \<Longrightarrow> length r < length s"
  by (cases s) (auto split: if_splits list.splits)

function re_parse :: "string \<Rightarrow> re_item list option" where
  "re_parse s =
     (if s = [] then Some []
      else (case re_take_atom s of
              None \<Rightarrow> None
            | Some (a, r) \<Rightarrow>
                (case r of
                   [] \<Rightarrow> map_option (Cons (Once a)) (re_parse r)
                 | q # r' \<Rightarrow>
                     if q = CHR ''*'' then map_option (Cons (Star a)) (re_parse r')
                     else map_option (Cons (Once a)) (re_parse r))))"
  by pat_completeness auto
termination
  by (relation "measure length") (auto dest: re_take_atom_shorter)

declare re_parse.simps [simp del]

text \<open>Without \<open>re.DOTALL\<close> the wildcard does not match a newline.\<close>

fun atom_matches :: "bool \<Rightarrow> re_atom \<Rightarrow> char \<Rightarrow> bool" where
  "atom_matches dotall (Lit l) c = (c = l)"
| "atom_matches dotall AnyChar c = (dotall \<or> c \<noteq> newline)"

text \<open>
  Matching the whole of the value, by backtracking: a starred atom first tries to take one
  more character (it is greedy), then to stop.
\<close>

fun re_match_items :: "bool \<Rightarrow> re_item list \<Rightarrow> string \<Rightarrow> bool" where
  "re_match_items dotall [] v = (v = [])"
| "re_match_items dotall (Once a # items) [] = False"
| "re_match_items dotall (Once a # items) (c # cs) =
     (atom_matches dotall a c \<and> re_match_items dotall items cs)"
| "re_match_items dotall (Star a # items) [] = re_match_items dotall items []"
| "re_match_items dotall (Star a # items) (c # cs) =
     ((atom_matches dotall a c \<and> re_match_items dotall (Star a # items) cs)
      \<or> re_match_items dotall items (c # cs))"

text \<open>\<open>re.fullmatch(pat, v, flags) is not None\<close>; \<open>None\<close> when the pattern is outside the fragment.\<close>

definition re_fullmatch :: "string \<Rightarrow> string \<Rightarrow> bool \<Rightarrow> bool option" where
  "re_fullmatch pat v dotall =
     map_option (\<lambda>items. re_match_items dotall items v) (re_parse pat)"

definition pattern_match :: "string \<Rightarrow> string \<Rightarrow> bool option" where
  "pattern_match pattern val =
     (let re_pattern = str_join ''.*'' (map re_escape (str_split CHR ''*'' pattern))
      in re_fullmatch re_pattern val True)"

text \<open>
  The matching rule in the words of the specification, to compare \<open>pattern_match\<close> with:
  a \<open>*\<close> in the pattern stands for any run of characters of the value, of any length from
  zero up and of any content; every other pattern character stands for itself; the pattern
  has to account for the whole value.
\<close>

fun glob_matches :: "string \<Rightarrow> string \<Rightarrow> bool" where
  "glob_matches [] v = (v = [])"
| "glob_matches (p # ps) v =
     (if p = CHR ''*'' then (\<exists>k \<in> {0..length v}. glob_matches ps (drop k v))
      else (case v of [] \<Rightarrow> False | c # cs \<Rightarrow> c = p \<and> glob_matches ps cs))"


text \<open>
  For the proofs: the item a pattern character turns into, and the regular expression of a
  pattern as a function of its own.
\<close>

definition glob_item :: "char \<Rightarrow> re_item" where
  "glob_item c = (if c = CHR ''*'' then Star AnyChar else Once (Lit c))"

definition re_pattern_of :: "string \<Rightarrow> string" where
  "re_pattern_of pattern = str_join ''.*'' (map re_escape (str_split CHR ''*'' pattern))"


section \<open>Python values\<close>

text \<open>
  The values \<open>partial_compare\<close> is called with: \<open>None\<close>, \<open>Ellipsis\<close>, booleans, integers,
  floats, strings, lists, tuples and dicts, nested at will. \<open>partial_compare\<close> tells
  \<open>type(v)\<close> (the concrete class) from \<open>isinstance(v, t)\<close> (the class or one derived from it),
  so a value of a subclassable builtin type carries its class: the builtin itself
  (\<open>Exact\<close>) or a class derived from it that overrides nothing (\<open>Derived name\<close>, as in
  \<^verbatim>\<open>class D(dict): pass\<close>).

  A float is its exact value, a rational or an infinity; no arithmetic is done on floats
  here, only comparison. NaN is left out: inside containers its comparison depends on object
  identity. A dict is the list of its items in insertion order.
\<close>

datatype pyfloat = Finite rat | PosInf | NegInf

datatype pykind = KNone | KEllipsis | KBool | KInt | KFloat | KStr | KList | KTuple | KDict

datatype pytype = Builtin pykind | Subclass string pykind

datatype pyclass = Exact | Derived string

datatype pyval =
    PNone
  | PEllipsis
  | PBool bool
  | PInt pyclass int
  | PFloat pyclass pyfloat
  | PStr pyclass string
  | PList pyclass "pyval list"
  | PTuple pyclass "pyval list"
  | PDict pyclass "(pyval \<times> pyval) list"

fun make_type :: "pyclass \<Rightarrow> pykind \<Rightarrow> pytype" where
  "make_type Exact k = Builtin k"
| "make_type (Derived n) k = Subclass n k"

text \<open>\<open>type(v)\<close>.\<close>

fun type_of :: "pyval \<Rightarrow> pytype" where
  "type_of PNone = Builtin KNone"
| "type_of PEllipsis = Builtin KEllipsis"
| "type_of (PBool b) = Builtin KBool"
| "type_of (PInt c i) = make_type c KInt"
| "type_of (PFloat c f) = make_type c KFloat"
| "type_of (PStr c s) = make_type c KStr"
| "type_of (PList c xs) = make_type c KList"
| "type_of (PTuple c xs) = make_type c KTuple"
| "type_of (PDict c d) = make_type c KDict"

fun base_kind :: "pytype \<Rightarrow> pykind" where
  "base_kind (Builtin k) = k"
| "base_kind (Subclass n k) = k"

text \<open>\<open>isinstance(v, k)\<close> for a builtin type \<open>k\<close>; \<open>bool\<close> derives from \<open>int\<close>.\<close>

definition isinstance :: "pyval \<Rightarrow> pykind \<Rightarrow> bool" where
  "isinstance v k =
     (base_kind (type_of v) = k \<or> (k = KInt \<and> base_kind (type_of v) = KBool))"

fun kind_name :: "pykind \<Rightarrow> string" where
  "kind_name KNone = ''NoneType''"
| "kind_name KEllipsis = ''ellipsis''"
| "kind_name KBool = ''bool''"
| "kind_name KInt = ''int''"
| "kind_name KFloat = ''float''"
| "kind_name KStr = ''str''"
| "kind_name KList = ''list''"
| "kind_name KTuple = ''tuple''"
| "kind_name KDict = ''dict''"

text \<open>\<open>type(v).__name__\<close>.\<close>

fun type_name :: "pytype \<Rightarrow> string" where
  "type_name (Builtin k) = kind_name k"
| "type_name (Subclass n k) = n"

fun dict_items :: "pyval \<Rightarrow> (pyval \<times> pyval) list" where
  "dict_items (PDict c d) = d"
| "dict_items v = []"

fun list_items :: "pyval \<Rightarrow> pyval list" where
  "list_items (PList c xs) = xs"
| "list_items v = []"

fun str_value :: "pyval \<Rightarrow> string" where
  "str_value (PStr c s) = s"
| "str_value v = []"

text \<open>The number a boolean, an integer or a float stands for.\<close>

fun num_of :: "pyval \<Rightarrow> pyfloat option" where
  "num_of (PBool b) = Some (Finite (if b then 1 else 0))"
| "num_of (PInt c i) = Some (Finite (of_int i))"
| "num_of (PFloat c f) = Some f"
| "num_of v = None"

text \<open>
  Python's \<open>==\<close> on these values: numbers compare by value across \<open>bool\<close>, \<open>int\<close> and
  \<open>float\<close>; strings by content; lists and tuples element by element, each with its own
  kind only; dicts when they have the same number of items and every key of the first is a
  key of the second with an equal value. \<open>py_dict_get key d\<close> is the lookup \<open>d[key]\<close>, with
  \<open>None\<close> when \<open>key not in d\<close>: keys are found by \<open>==\<close>.
\<close>

function py_eq :: "pyval \<Rightarrow> pyval \<Rightarrow> bool"
  and py_eq_seq :: "pyval list \<Rightarrow> pyval list \<Rightarrow> bool"
  and py_eq_items :: "(pyval \<times> pyval) list \<Rightarrow> (pyval \<times> pyval) list \<Rightarrow> bool"
  and py_dict_get :: "pyval \<Rightarrow> (pyval \<times> pyval) list \<Rightarrow> pyval option"
where
  "py_eq PNone b = (b = PNone)"
| "py_eq PEllipsis b = (b = PEllipsis)"
| "py_eq (PBool x) b = (num_of b = Some (Finite (if x then 1 else 0)))"
| "py_eq (PInt c i) b = (num_of b = Some (Finite (of_int i)))"
| "py_eq (PFloat c f) b = (num_of b = Some f)"
| "py_eq (PStr c s) b = (case b of PStr c' t \<Rightarrow> s = t | _ \<Rightarrow> False)"
| "py_eq (PList c xs) b = (case b of PList c' ys \<Rightarrow> py_eq_seq xs ys | _ \<Rightarrow> False)"
| "py_eq (PTuple c xs) b = (case b of PTuple c' ys \<Rightarrow> py_eq_seq xs ys | _ \<Rightarrow> False)"
| "py_eq (PDict c d1) b =
     (case b of
        PDict c' d2 \<Rightarrow> length d1 = length d2 \<and> py_eq_items d1 d2
      | _ \<Rightarrow> False)"
| "py_eq_seq [] ys = (ys = [])"
| "py_eq_seq (x # xs) ys =
     (case ys of [] \<Rightarrow> False | y # ys' \<Rightarrow> py_eq x y \<and> py_eq_seq xs ys')"
| "py_eq_items [] d2 = True"
| "py_eq_items ((k, v1) # rest) d2 =
     (case py_dict_get k d2 of
        None \<Rightarrow> False
      | Some v2 \<Rightarrow> py_eq v1 v2 \<and> py_eq_items rest d2)"
| "py_dict_get k [] = None"
| "py_dict_get k ((k', v) # rest) = (if py_eq k k' then Some v else py_dict_get k rest)"
  by pat_completeness auto
termination
  by (relation "measures [
     (\<lambda>x. case x of
        Inl (Inl (a, b)) \<Rightarrow> size a
      | Inl (Inr (xs, ys)) \<Rightarrow> size_list size xs
      | Inr (Inl (d1, d2)) \<Rightarrow> size_list (size_prod size size) d1
      | Inr (Inr (k, d)) \<Rightarrow> size k),
     (\<lambda>x. case x of
        Inl (Inl (a, b)) \<Rightarrow> 0
      | Inl (Inr (xs, ys)) \<Rightarrow> 0
      | Inr (Inl (d1, d2)) \<Rightarrow> 0
      | Inr (Inr (k, d)) \<Rightarrow> Suc (length d))]") auto


section \<open>Partial comparison\<close>

text \<open>
  \<^verbatim>\<open>
  class PartialCompareOutcome:
      def __init__(self, error=None): self.error = error
      def __bool__(self): return self.error is None
  \<close>
\<close>

record PartialCompareOutcome =
  error :: "string option"

definition outcome_bool :: "PartialCompareOutcome \<Rightarrow> bool" where
  "outcome_bool outcome = (error outcome = None)"

text \<open>
  Two library functions are parameters of the model: \<open>approx L val1 val2\<close> is
  \<open>val1 == pytest.approx(val2)\<close>, and \<open>repr L v\<close> is what \<open>{!r}\<close> formats \<open>v\<close> to.
  \<open>print_i\<close> only writes the progress of the comparison to the standard output, and the
  \<open>indent\<close> argument and \<open>ON_CI\<close> are used for nothing else; they are left out.
\<close>

record pylib =
  approx :: "pyval \<Rightarrow> pyval \<Rightarrow> bool"
  repr :: "pyval \<Rightarrow> string"

definition partial_compare_float :: "pylib \<Rightarrow> pyval \<Rightarrow> pyval \<Rightarrow> PartialCompareOutcome" where
  "partial_compare_float L val1 val2 =
     (if approx L val1 val2 then \<lparr>error = None\<rparr>
      else \<lparr>error = Some (repr L val1 @ '' != '' @ repr L val2 @ '' (float comparison)'')\<rparr>)"

text \<open>
  \<open>pattern_match\<close> always returns a boolean (\<open>pattern_match_total\<close> below), so the test
  against \<open>Some True\<close> loses nothing.
\<close>

definition partial_compare_str :: "pylib \<Rightarrow> pyval \<Rightarrow> pyval \<Rightarrow> PartialCompareOutcome" where
  "partial_compare_str L val1 val2 =
     (if pattern_match (str_value val2) (str_value val1) = Some True then \<lparr>error = None\<rparr>
      else \<lparr>error = Some (repr L val1 @ '' != '' @ repr L val2 @ '' (pattern matching)'')\<rparr>)"

definition partial_compare_eq :: "pylib \<Rightarrow> pyval \<Rightarrow> pyval \<Rightarrow> PartialCompareOutcome" where
  "partial_compare_eq L val1 val2 =
     (if py_eq val1 val2 then \<lparr>error = None\<rparr>
      else \<lparr>error = Some (repr L val1 @ '' != '' @ repr L val2)\<rparr>)"

lemma base_kind_make_type [simp]: "base_kind (make_type c k) = k"
  by (cases c) simp_all

lemma size_dict_items: "size_list (size_prod size size) (dict_items v) \<le> size v"
  by (cases v) auto

lemma size_list_items: "size_list size (list_items v) \<le> size v"
  by (cases v) auto

text \<open>
  \<open>partial_compare\<close> and its two recursive handlers. The \<open>for\<close> loops are the functions
  \<open>partial_compare_dict_loop\<close> (over the items of \<open>val2\<close> that are left; \<open>val2[key]\<close> is the
  value stored with the key the loop is at) and \<open>partial_compare_list_loop\<close> (over
  \<open>zip(val1, val2)\<close>, which ends with the shorter list). The handlers are tried in the
  order of the \<open>handlers\<close> dict: dict, list, float, str, and then \<open>==\<close>.
\<close>

function partial_compare :: "pylib \<Rightarrow> pyval \<Rightarrow> pyval \<Rightarrow> PartialCompareOutcome"
  and partial_compare_dict :: "pylib \<Rightarrow> pyval \<Rightarrow> pyval \<Rightarrow> PartialCompareOutcome"
  and partial_compare_dict_loop ::
        "pylib \<Rightarrow> pyval \<Rightarrow> (pyval \<times> pyval) list \<Rightarrow> PartialCompareOutcome"
  and partial_compare_list :: "pylib \<Rightarrow> pyval \<Rightarrow> pyval \<Rightarrow> PartialCompareOutcome"
  and partial_compare_list_loop ::
        "pylib \<Rightarrow> pyval list \<Rightarrow> pyval list \<Rightarrow> PartialCompareOutcome"
where
  "partial_compare L val1 val2 =
     (if val2 = PEllipsis then \<lparr>error = None\<rparr>
      else if type_of val1 \<noteq> type_of val2 then
        \<lparr>error = Some (''Different types ('' @ type_name (type_of val1) @ '', ''
                        @ type_name (type_of val2) @ '') -> False'')\<rparr>
      else if isinstance val2 KDict then partial_compare_dict L val1 val2
      else if isinstance val2 KList then partial_compare_list L val1 val2
      else if isinstance val2 KFloat then partial_compare_float L val1 val2
      else if isinstance val2 KStr then partial_compare_str L val1 val2
      else partial_compare_eq L val1 val2)"
| "partial_compare_dict L val1 val2 = partial_compare_dict_loop L val1 (dict_items val2)"
| "partial_compare_dict_loop L val1 [] = \<lparr>error = None\<rparr>"
| "partial_compare_dict_loop L val1 ((key, item2) # rest) =
     (case py_dict_get key (dict_items val1) of
        None \<Rightarrow>
          \<lparr>error = Some (''Key '' @ repr L key @ '' is in second dict but not in first!'')\<rparr>
      | Some item1 \<Rightarrow>
          (let outcome = partial_compare L item1 item2
           in if \<not> outcome_bool outcome then outcome
              else partial_compare_dict_loop L val1 rest))"
| "partial_compare_list L val1 val2 =
     (if length (list_items val1) < length (list_items val2) then
        \<lparr>error = Some ''Second list is longer than first list''\<rparr>
      else partial_compare_list_loop L (list_items val1) (list_items val2))"
| "partial_compare_list_loop L [] items2 = \<lparr>error = None\<rparr>"
| "partial_compare_list_loop L (item1 # items1) [] = \<lparr>error = None\<rparr>"
| "partial_compare_list_loop L (item1 # items1) (item2 # items2) =
     (let outcome = partial_compare L item1 item2
      in if \<not> outcome_bool outcome then outcome
         else partial_compare_list_loop L items1 items2)"
  by pat_completeness auto
termination
  by (relation "measure (\<lambda>x. case x of
        Inl (Inl (L, val1, val2)) \<Rightarrow> 3 * size val2 + 2
      | Inl (Inr (L, val1, val2)) \<Rightarrow> 3 * size val2 + 1
      | Inr (Inl (L, val1, items2)) \<Rightarrow> 3 * size_list (size_prod size size) items2
      | Inr (Inr (Inl (L, val1, val2))) \<Rightarrow> 3 * size val2 + 1
      | Inr (Inr (Inr (L, items1, items2))) \<Rightarrow> 3 * size_list size items2)")
     (auto simp: less_Suc_eq_le size_dict_items size_list_items)

declare partial_compare.simps [simp del]

text \<open>
  A position inside a pair of values that the comparison gets to: the item at an index of
  two lists, or the item of an entry of the expected dict together with the item the actual
  dict has under that entry's key. \<open>descend\<close> follows a path of such steps.
\<close>

datatype step = Index nat | Entry nat

fun descend :: "step list \<Rightarrow> pyval \<Rightarrow> pyval \<Rightarrow> (pyval \<times> pyval) option" where
  "descend [] val1 val2 = Some (val1, val2)"
| "descend (Index i # path) val1 val2 =
     (if isinstance val1 KList \<and> isinstance val2 KList
         \<and> i < length (list_items val1) \<and> i < length (list_items val2)
      then descend path (list_items val1 ! i) (list_items val2 ! i)
      else None)"
| "descend (Entry j # path) val1 val2 =
     (if isinstance val1 KDict \<and> isinstance val2 KDict \<and> j < length (dict_items val2)
      then (case py_dict_get (fst (dict_items val2 ! j)) (dict_items val1) of
              None \<Rightarrow> None
            | Some item1 \<Rightarrow> descend path item1 (snd (dict_items val2 ! j)))
      else None)"

text \<open>
  A library for running the comparison on examples: floats compared exactly, and a
  \<open>repr\<close> that prints the type name only.
\<close>

definition sample_lib :: pylib where
  "sample_lib = \<lparr>approx = py_eq, repr = (\<lambda>v. type_name (type_of v))\<rparr>"


text \<open>
  \<open>pytest.approx\<close> as its documentation describes it, with the default tolerances:
  \<open>actual == pytest.approx(expected)\<close> holds when the two differ by no more than the
  larger of the relative tolerance, \<open>1e-6\<close> times the magnitude of \<open>expected\<close>, and the
  absolute tolerance \<open>1e-12\<close>; an infinity is approximately equal to itself only.
  The difference and the tolerance are computed on the exact values here, where pytest
  computes them in floating-point arithmetic. \<open>pytest_lib\<close> is the library with this
  comparison.
\<close>

fun approx_float :: "pyfloat \<Rightarrow> pyfloat \<Rightarrow> bool" where
  "approx_float (Finite a) (Finite e) = (\<bar>a - e\<bar> \<le> max (\<bar>e\<bar> / 10 ^ 6) (1 / 10 ^ 12))"
| "approx_float actual expected = (actual = expected)"

fun pytest_approx :: "pyval \<Rightarrow> pyval \<Rightarrow> bool" where
  "pytest_approx (PFloat c a) (PFloat c' e) = approx_float a e"
| "pytest_approx val1 val2 = py_eq val1 val2"

definition pytest_lib :: pylib where
  "pytest_lib = \<lparr>approx = pytest_approx, repr = (\<lambda>v. type_name (type_of v))\<rparr>"


section \<open>The packaging script\<close>

text \<open>
  \<open>scripts/freeze.py\<close> ends with
  \<^verbatim>\<open>
  try:
      write_git_file()
      setup(...)
  finally:
      if BASEDIR is not None:
          path = os.path.join(BASEDIR, 'qutebrowser', 'git-commit-id')
          if os.path.exists(path):
              os.remove(path)
  \<close>
  where \<open>BASEDIR\<close> is \<open>None\<close> when \<open>__file__\<close> is not defined. The file system is a map
  from paths to what is there; \<open>write_git_file\<close> (from \<open>scripts.setupcommon\<close>) and \<open>setup\<close>
  (from \<open>cx_Freeze\<close>) are parameters: each takes the file system and returns the exception
  it raised, if any, and the file system it left. \<open>os.remove\<close> removes a regular file and
  raises for a directory; permissions are not modelled.
\<close>

datatype fs_node = RegularFile | Directory

type_synonym filesystem = "string \<rightharpoonup> fs_node"

datatype py_exception = StepFailed string | IsADirectoryError string | FileNotFoundError string

type_synonym fs_step = "filesystem \<Rightarrow> py_exception option \<times> filesystem"

text \<open>\<open>os.path.join\<close> on POSIX.\<close>

definition os_path_join2 :: "string \<Rightarrow> string \<Rightarrow> string" where
  "os_path_join2 a b =
     (if b \<noteq> [] \<and> hd b = CHR ''/'' then b
      else if a = [] \<or> last a = CHR ''/'' then a @ b
      else a @ ''/'' @ b)"

definition os_path_join :: "string \<Rightarrow> string list \<Rightarrow> string" where
  "os_path_join a ps = foldl os_path_join2 a ps"

definition os_path_exists :: "filesystem \<Rightarrow> string \<Rightarrow> bool" where
  "os_path_exists fs path = (fs path \<noteq> None)"

definition os_remove :: "string \<Rightarrow> fs_step" where
  "os_remove path fs =
     (case fs path of
        None \<Rightarrow> (Some (FileNotFoundError path), fs)
      | Some Directory \<Rightarrow> (Some (IsADirectoryError path), fs)
      | Some RegularFile \<Rightarrow> (None, fs(path := None)))"

definition git_commit_id_path :: "string \<Rightarrow> string" where
  "git_commit_id_path basedir = os_path_join basedir [''qutebrowser'', ''git-commit-id'']"

text \<open>The body of the \<open>try\<close>: \<open>setup\<close> runs only if \<open>write_git_file\<close> returned.\<close>

definition freeze_try :: "fs_step \<Rightarrow> fs_step \<Rightarrow> fs_step" where
  "freeze_try write_git_file cx_setup fs =
     (case write_git_file fs of
        (Some exc, fs') \<Rightarrow> (Some exc, fs')
      | (None, fs') \<Rightarrow> cx_setup fs')"

text \<open>The body of the \<open>finally\<close>.\<close>

definition freeze_finally :: "string option \<Rightarrow> fs_step" where
  "freeze_finally BASEDIR fs =
     (case BASEDIR of
        None \<Rightarrow> (None, fs)
      | Some basedir \<Rightarrow>
          (let path = git_commit_id_path basedir
           in if os_path_exists fs path then os_remove path fs else (None, fs)))"

text \<open>
  \<open>try ... finally\<close>: the \<open>finally\<close> body runs in every case; an exception it raises is the
  one that leaves the statement, otherwise the one of the \<open>try\<close> body, if any, is raised
  again.
\<close>

definition freeze_script :: "string option \<Rightarrow> fs_step \<Rightarrow> fs_step \<Rightarrow> fs_step" where
  "freeze_script BASEDIR write_git_file cx_setup fs =
     (case freeze_try write_git_file cx_setup fs of
        (exc, fs1) \<Rightarrow>
          (case freeze_finally BASEDIR fs1 of
             (Some cleanup_exc, fs2) \<Rightarrow> (Some cleanup_exc, fs2)
           | (None, fs2) \<Rightarrow> (exc, fs2)))"


text \<open>
  Steps for running the script on examples: a \<open>write_git_file\<close> that writes the file at a
  given path, a \<open>setup\<close> that returns and one that raises.
\<close>

definition sample_write_git_file :: "string \<Rightarrow> fs_step" where
  "sample_write_git_file path fs = (None, fs(path \<mapsto> RegularFile))"

definition sample_setup_ok :: fs_step where
  "sample_setup_ok fs = (None, fs)"

definition sample_setup_fails :: fs_step where
  "sample_setup_fails fs = (Some (StepFailed ''setup''), fs)"


section \<open>Wildcard pattern matching\<close>

lemma str_split_nonempty: "str_split sep s \<noteq> []"
  by (induction s) (auto simp: Let_def)

lemma str_join_Cons:
  "ps \<noteq> [] \<Longrightarrow> str_join sep (p # ps) = p @ sep @ str_join sep ps"
  by (cases ps) auto

lemma str_join_push:
  "ps \<noteq> [] \<Longrightarrow> str_join sep ((x @ hd ps) # tl ps) = x @ str_join sep ps"
proof (cases ps)
  case Nil
  then show "ps \<noteq> [] \<Longrightarrow> ?thesis" by simp
next
  case (Cons q qs)
  then show "ps \<noteq> [] \<Longrightarrow> ?thesis" by (cases qs) auto
qed

lemma re_parse_Nil: "re_parse [] = Some []"
  by (subst re_parse.simps) simp

lemma re_pattern_of_Nil: "re_pattern_of [] = []"
  by (simp add: re_pattern_of_def re_escape_def)

lemma re_pattern_of_star:
  "re_pattern_of (CHR ''*'' # cs) = ''.*'' @ re_pattern_of cs"
  by (simp add: re_pattern_of_def Let_def str_join_Cons str_split_nonempty re_escape_def)

lemma re_pattern_of_lit:
  assumes "c \<noteq> CHR ''*''"
  shows "re_pattern_of (c # cs) = re_escape_char c @ re_pattern_of cs"
proof -
  let ?ps = "str_split CHR ''*'' cs"
  have ne: "map re_escape ?ps \<noteq> []" by (simp add: str_split_nonempty)
  have "map re_escape ((c # hd ?ps) # tl ?ps)
        = (re_escape_char c @ hd (map re_escape ?ps)) # tl (map re_escape ?ps)"
    using str_split_nonempty[of "CHR ''*''" cs]
    by (cases ?ps) (auto simp: re_escape_def)
  then show ?thesis
    using assms str_join_push[OF ne, of "''.*''" "re_escape_char c"]
    by (simp add: re_pattern_of_def Let_def)
qed

lemma star_special: "CHR ''*'' \<in> set re_special_chars"
  by (simp add: re_special_chars_def)

lemma meta_special: "c \<in> set re_meta_chars \<Longrightarrow> c \<in> set re_special_chars"
  by (auto simp: re_meta_chars_def re_special_chars_def)

lemma special_not_alnum: "c \<in> set re_special_chars \<Longrightarrow> \<not> is_ascii_alnum c"
  by (auto simp: re_special_chars_def is_ascii_alnum_def backslash_def)

lemma re_escape_char_hd: "hd (re_escape_char c @ r) \<noteq> CHR ''*''"
  using star_special by (auto simp: re_escape_char_def backslash_def)

lemma re_pattern_of_hd:
  "re_pattern_of p \<noteq> [] \<Longrightarrow> hd (re_pattern_of p) \<noteq> CHR ''*''"
proof (cases p)
  case Nil
  then show "re_pattern_of p \<noteq> [] \<Longrightarrow> ?thesis" by (simp add: re_pattern_of_Nil)
next
  case (Cons c cs)
  show "re_pattern_of p \<noteq> [] \<Longrightarrow> ?thesis"
  proof (cases "c = CHR ''*''")
    case True
    then show ?thesis using Cons by (simp add: re_pattern_of_star)
  next
    case False
    then show ?thesis using Cons re_escape_char_hd by (simp add: re_pattern_of_lit)
  qed
qed

lemma re_take_atom_escaped:
  "re_take_atom (re_escape_char c @ r) = Some (Lit c, r)"
proof (cases "c \<in> set re_special_chars")
  case True
  then show ?thesis
    using special_not_alnum[OF True] by (simp add: re_escape_char_def)
next
  case False
  then have "c \<noteq> backslash" "c \<noteq> CHR ''.''" "c \<notin> set re_meta_chars"
    using meta_special[of c] by (auto simp: re_special_chars_def)
  with False show ?thesis by (simp add: re_escape_char_def)
qed

lemma re_escape_char_nonempty: "re_escape_char c \<noteq> []"
  by (simp add: re_escape_char_def)

lemma re_parse_escaped:
  assumes "r = [] \<or> hd r \<noteq> CHR ''*''"
  shows "re_parse (re_escape_char c @ r) = map_option (Cons (Once (Lit c))) (re_parse r)"
proof -
  have "re_parse (re_escape_char c @ r) =
          (case r of
             [] \<Rightarrow> map_option (Cons (Once (Lit c))) (re_parse r)
           | q # r' \<Rightarrow>
               if q = CHR ''*'' then map_option (Cons (Star (Lit c))) (re_parse r')
               else map_option (Cons (Once (Lit c))) (re_parse r))"
    by (subst re_parse.simps)
       (simp add: re_escape_char_nonempty re_take_atom_escaped)
  then show ?thesis
    using assms by (cases r) auto
qed

lemma re_parse_dotstar:
  "re_parse (''.*'' @ r) = map_option (Cons (Star AnyChar)) (re_parse r)"
  by (subst re_parse.simps) (simp add: backslash_def)

lemma re_parse_pattern: "re_parse (re_pattern_of p) = Some (map glob_item p)"
proof (induction p)
  case Nil
  then show ?case by (simp add: re_pattern_of_Nil re_parse_Nil)
next
  case (Cons c cs)
  show ?case
  proof (cases "c = CHR ''*''")
    case True
    then show ?thesis
      using Cons by (simp only: re_pattern_of_star re_parse_dotstar) (simp add: glob_item_def)
  next
    case False
    have "re_pattern_of cs = [] \<or> hd (re_pattern_of cs) \<noteq> CHR ''*''"
      using re_pattern_of_hd by blast
    then show ?thesis
      using False Cons by (simp add: re_pattern_of_lit re_parse_escaped glob_item_def)
  qed
qed

lemma re_match_star_any:
  "re_match_items True (Star AnyChar # items) v
     = (\<exists>k \<in> {0..length v}. re_match_items True items (drop k v))"
proof (induction v)
  case Nil
  then show ?case by simp
next
  case (Cons c cs)
  have "(\<exists>k \<in> {0..length (c # cs)}. re_match_items True items (drop k (c # cs)))
        = (re_match_items True items (c # cs)
           \<or> (\<exists>k \<in> {0..length cs}. re_match_items True items (drop k cs)))"
  proof
    assume "\<exists>k \<in> {0..length (c # cs)}. re_match_items True items (drop k (c # cs))"
    then obtain k where k: "k \<le> length (c # cs)" "re_match_items True items (drop k (c # cs))"
      by auto
    show "re_match_items True items (c # cs)
           \<or> (\<exists>k \<in> {0..length cs}. re_match_items True items (drop k cs))"
    proof (cases k)
      case 0
      then show ?thesis using k by simp
    next
      case (Suc j)
      then have "j \<le> length cs" "re_match_items True items (drop j cs)" using k by auto
      then show ?thesis by auto
    qed
  next
    assume "re_match_items True items (c # cs)
           \<or> (\<exists>k \<in> {0..length cs}. re_match_items True items (drop k cs))"
    then show "\<exists>k \<in> {0..length (c # cs)}. re_match_items True items (drop k (c # cs))"
    proof
      assume "re_match_items True items (c # cs)"
      then have "re_match_items True items (drop 0 (c # cs))" by simp
      then show ?thesis by (intro bexI[of _ 0]) auto
    next
      assume "\<exists>k \<in> {0..length cs}. re_match_items True items (drop k cs)"
      then obtain k where "k \<le> length cs" "re_match_items True items (drop k cs)" by auto
      then have "re_match_items True items (drop (Suc k) (c # cs))" "Suc k \<le> length (c # cs)"
        by auto
      then show ?thesis by (intro bexI[of _ "Suc k"]) auto
    qed
  qed
  with Cons show ?case by auto
qed

lemma re_match_glob: "re_match_items True (map glob_item p) v = glob_matches p v"
proof (induction p arbitrary: v)
  case Nil
  then show ?case by simp
next
  case (Cons c cs)
  show ?case
  proof (cases "c = CHR ''*''")
    case True
    then show ?thesis using Cons by (simp add: glob_item_def re_match_star_any)
  next
    case False
    then show ?thesis using Cons by (cases v) (auto simp: glob_item_def)
  qed
qed

lemma pattern_match_refines: "pattern_match p v = Some (glob_matches p v)"
  using re_parse_pattern[of p] re_match_glob[of p v]
  by (simp add: pattern_match_def re_fullmatch_def re_pattern_of_def)

lemma pattern_match_total: "\<exists>b. pattern_match p v = Some b"
  by (simp add: pattern_match_refines)

lemma glob_matches_literal:
  "CHR ''*'' \<notin> set p \<Longrightarrow> glob_matches p v = (v = p)"
  by (induction p arbitrary: v) (auto split: list.splits)

lemma glob_matches_star_only: "glob_matches ''*'' v"
  by (simp add: bexI[of _ "length v"])

text \<open>
  C1. For every pattern and value, \<open>pattern_match\<close> returns a boolean, and it is \<open>True\<close>
  exactly when the value matches the pattern under the rule that \<open>*\<close> stands for any run
  of characters and every other character for itself, the whole value being matched. A
  run may contain newlines. \<open>foo*bar\<close> matches \<open>foobazbar\<close> and does not match \<open>foobaz\<close>,
  and a pattern without \<open>*\<close> matches exactly the value equal to it.
\<close>

theorem pattern_match_is_glob:
  "(\<forall>pattern val. pattern_match pattern val = Some (glob_matches pattern val))
   \<and> pattern_match ''foo*bar'' ''foobazbar'' = Some True
   \<and> pattern_match ''foo*bar'' ''foobaz'' = Some False
   \<and> pattern_match ''a*b'' [CHR ''a'', newline, CHR ''b''] = Some True
   \<and> (\<forall>pattern val. CHR ''*'' \<notin> set pattern
         \<longrightarrow> pattern_match pattern val = Some (val = pattern))"
proof (intro conjI allI impI)
  fix pattern val
  show "pattern_match pattern val = Some (glob_matches pattern val)"
    by (rule pattern_match_refines)
next
  show "pattern_match ''foo*bar'' ''foobazbar'' = Some True" by code_simp
next
  show "pattern_match ''foo*bar'' ''foobaz'' = Some False" by code_simp
next
  show "pattern_match ''a*b'' [CHR ''a'', newline, CHR ''b''] = Some True" by code_simp
next
  fix pattern val
  assume "CHR ''*'' \<notin> set pattern"
  then show "pattern_match pattern val = Some (val = pattern)"
    by (simp add: pattern_match_refines glob_matches_literal)
qed

theorem pattern_match_is_glob_witness:
  "CHR ''*'' \<notin> set ''foobar''
   \<and> pattern_match ''foobar'' ''foobar'' = Some True
   \<and> pattern_match ''foobar'' ''foobaz'' = Some False
   \<and> pattern_match ''f*r'' ''foobar'' = Some (glob_matches ''f*r'' ''foobar'')"
proof -
  have lit: "CHR ''*'' \<notin> set ''foobar''" by simp
  have all: "\<forall>pattern val. CHR ''*'' \<notin> set pattern
               \<longrightarrow> pattern_match pattern val = Some (val = pattern)"
    and glob: "\<forall>pattern val. pattern_match pattern val = Some (glob_matches pattern val)"
    using pattern_match_is_glob by blast+
  have "pattern_match ''foobar'' ''foobar'' = Some (''foobar'' = ''foobar'')"
    using all lit by blast
  moreover have "pattern_match ''foobar'' ''foobaz'' = Some (''foobaz'' = ''foobar'')"
    using all lit by blast
  moreover have "pattern_match ''f*r'' ''foobar'' = Some (glob_matches ''f*r'' ''foobar'')"
    using glob by blast
  ultimately show ?thesis using lit by simp
qed

text \<open>
  C10. The run a \<open>*\<close> stands for may be empty: \<open>foo*bar\<close> matches \<open>foobar\<close>, the pattern
  \<open>*\<close> matches every value, the empty one included, and the empty pattern matches the
  empty value and no other.
\<close>

theorem pattern_match_empty_run:
  "pattern_match ''foo*bar'' ''foobar'' = Some True
   \<and> (\<forall>val. pattern_match ''*'' val = Some True)
   \<and> (\<forall>val. pattern_match [] val = Some (val = []))"
proof (intro conjI allI)
  show "pattern_match ''foo*bar'' ''foobar'' = Some True" by code_simp
next
  fix val
  show "pattern_match ''*'' val = Some True"
    using glob_matches_star_only[of val] by (simp only: pattern_match_refines)
next
  fix val
  show "pattern_match [] val = Some (val = [])"
    by (simp add: pattern_match_refines)
qed


section \<open>Partial comparison: the dispatch and the loops\<close>

lemma partial_compare_ellipsis: "partial_compare L val1 PEllipsis = \<lparr>error = None\<rparr>"
  by (subst partial_compare.simps) simp

lemma partial_compare_type_mismatch:
  "val2 \<noteq> PEllipsis \<Longrightarrow> type_of val1 \<noteq> type_of val2 \<Longrightarrow>
   partial_compare L val1 val2 =
     \<lparr>error = Some (''Different types ('' @ type_name (type_of val1) @ '', ''
                     @ type_name (type_of val2) @ '') -> False'')\<rparr>"
  by (subst partial_compare.simps) simp

lemma outcome_bool_simps [simp]:
  "outcome_bool \<lparr>error = None\<rparr>" "\<not> outcome_bool \<lparr>error = Some msg\<rparr>"
  by (simp_all add: outcome_bool_def)

lemma isinstance_simps [simp]:
  "isinstance (PDict c d) k = (k = KDict)"
  "isinstance (PList c xs) k = (k = KList)"
  "isinstance (PTuple c xs) k = (k = KTuple)"
  "isinstance (PStr c s) k = (k = KStr)"
  "isinstance (PFloat c f) k = (k = KFloat)"
  "isinstance (PInt c i) k = (k = KInt)"
  "isinstance (PBool b) k = (k = KBool \<or> k = KInt)"
  "isinstance PNone k = (k = KNone)"
  "isinstance PEllipsis k = (k = KEllipsis)"
  by (auto simp: isinstance_def)

lemma partial_compare_same_dict:
  "partial_compare L (PDict c d1) (PDict c d2) = partial_compare_dict_loop L (PDict c d1) d2"
  by (subst partial_compare.simps) simp

lemma partial_compare_same_list:
  "partial_compare L (PList c xs) (PList c ys) =
     (if length xs < length ys then \<lparr>error = Some ''Second list is longer than first list''\<rparr>
      else partial_compare_list_loop L xs ys)"
  by (subst partial_compare.simps) simp

lemma list_loop_ok:
  "outcome_bool (partial_compare_list_loop L xs ys) =
     (\<forall>i. i < length xs \<and> i < length ys \<longrightarrow> outcome_bool (partial_compare L (xs ! i) (ys ! i)))"
proof (induction xs arbitrary: ys)
  case Nil
  then show ?case by simp
next
  case (Cons x xs)
  show ?case
  proof (cases ys)
    case Nil
    then show ?thesis by simp
  next
    case (Cons y ys')
    show ?thesis
      unfolding Cons
      by (auto simp: Let_def Cons.IH less_Suc_eq_0_disj)
  qed
qed

lemma list_loop_first:
  "j < length xs \<Longrightarrow> j < length ys \<Longrightarrow>
   \<not> outcome_bool (partial_compare L (xs ! j) (ys ! j)) \<Longrightarrow>
   (\<forall>i < j. outcome_bool (partial_compare L (xs ! i) (ys ! i))) \<Longrightarrow>
   partial_compare_list_loop L xs ys = partial_compare L (xs ! j) (ys ! j)"
proof (induction xs arbitrary: ys j)
  case Nil
  then show ?case by simp
next
  case (Cons x xs)
  then obtain y ys' where ys: "ys = y # ys'" by (cases ys) auto
  show ?case
  proof (cases j)
    case 0
    then show ?thesis using Cons.prems ys by (simp add: Let_def)
  next
    case (Suc j')
    have head: "outcome_bool (partial_compare L x y)"
      using Cons.prems(4) Suc ys by (auto dest: spec[of _ 0])
    have "partial_compare_list_loop L xs ys' = partial_compare L (xs ! j') (ys' ! j')"
    proof (rule Cons.IH)
      show "j' < length xs" "j' < length ys'" using Cons.prems Suc ys by auto
      show "\<not> outcome_bool (partial_compare L (xs ! j') (ys' ! j'))"
        using Cons.prems(3) Suc ys by simp
      show "\<forall>i<j'. outcome_bool (partial_compare L (xs ! i) (ys' ! i))"
      proof (intro allI impI)
        fix i assume "i < j'"
        then have "Suc i < j" using Suc by simp
        then have "outcome_bool (partial_compare L ((x # xs) ! Suc i) (ys ! Suc i))"
          using Cons.prems(4) by blast
        then show "outcome_bool (partial_compare L (xs ! i) (ys' ! i))" using ys by simp
      qed
    qed
    then show ?thesis using head Suc ys by (simp add: Let_def)
  qed
qed

lemma list_loop_take:
  "partial_compare_list_loop L xs ys = partial_compare_list_loop L (take (length ys) xs) ys"
proof (induction xs arbitrary: ys)
  case Nil
  then show ?case by simp
next
  case (Cons x xs)
  show ?case
  proof (cases ys)
    case Nil
    then show ?thesis by simp
  next
    case (Cons y ys')
    then show ?thesis using Cons.IH[of ys'] by (simp add: Let_def)
  qed
qed

lemma dict_loop_ok:
  "outcome_bool (partial_compare_dict_loop L val1 items2) =
     (\<forall>(key, item2) \<in> set items2.
        \<exists>item1. py_dict_get key (dict_items val1) = Some item1
                \<and> outcome_bool (partial_compare L item1 item2))"
proof (induction items2)
  case Nil
  then show ?case by simp
next
  case (Cons entry rest)
  obtain key item2 where entry: "entry = (key, item2)" by (cases entry)
  show ?case
    unfolding entry using Cons.IH
    by (cases "py_dict_get key (dict_items val1)") (auto simp: Let_def)
qed

lemma dict_loop_first:
  assumes "\<forall>(key', item') \<in> set before.
             \<exists>item1. py_dict_get key' (dict_items val1) = Some item1
                     \<and> outcome_bool (partial_compare L item1 item')"
  shows "partial_compare_dict_loop L val1 (before @ (key, item2) # rest) =
           partial_compare_dict_loop L val1 ((key, item2) # rest)"
  using assms
proof (induction before)
  case Nil
  then show ?case by simp
next
  case (Cons entry before)
  obtain k e where entry: "entry = (k, e)" by (cases entry)
  from Cons.prems obtain a where a: "py_dict_get k (dict_items val1) = Some a"
      "outcome_bool (partial_compare L a e)"
    unfolding entry by auto
  have "partial_compare_dict_loop L val1 (before @ (key, item2) # rest) =
          partial_compare_dict_loop L val1 ((key, item2) # rest)"
    using Cons.IH Cons.prems by simp
  then show ?case unfolding entry using a by (simp add: Let_def)
qed

lemma dict_loop_cong:
  assumes "\<forall>(key, item2) \<in> set items2.
             py_dict_get key (dict_items val1') = py_dict_get key (dict_items val1)"
  shows "partial_compare_dict_loop L val1' items2 = partial_compare_dict_loop L val1 items2"
  using assms
proof (induction items2)
  case Nil
  then show ?case by simp
next
  case (Cons entry rest)
  obtain k e where entry: "entry = (k, e)" by (cases entry)
  have "partial_compare_dict_loop L val1' rest = partial_compare_dict_loop L val1 rest"
    using Cons by simp
  moreover have "py_dict_get k (dict_items val1') = py_dict_get k (dict_items val1)"
    using Cons.prems unfolding entry by simp
  ultimately show ?case unfolding entry by (simp add: Let_def split: option.split)
qed

lemma make_type_eq [simp]: "(make_type c k = make_type c' k') = (c = c' \<and> k = k')"
  by (cases c; cases c') auto

lemma partial_compare_dict_dispatch:
  "isinstance val2 KDict \<Longrightarrow> type_of val1 = type_of val2 \<Longrightarrow>
   partial_compare L val1 val2 = partial_compare_dict_loop L val1 (dict_items val2)"
  by (subst partial_compare.simps) (auto simp: isinstance_def)

lemma partial_compare_list_dispatch:
  "isinstance val2 KList \<Longrightarrow> type_of val1 = type_of val2 \<Longrightarrow>
   partial_compare L val1 val2 =
     (if length (list_items val1) < length (list_items val2) then
        \<lparr>error = Some ''Second list is longer than first list''\<rparr>
      else partial_compare_list_loop L (list_items val1) (list_items val2))"
  by (subst partial_compare.simps) (auto simp: isinstance_def)

lemma partial_compare_eq_dispatch:
  "val2 \<noteq> PEllipsis \<Longrightarrow> type_of val1 = type_of val2 \<Longrightarrow>
   \<not> isinstance val2 KDict \<Longrightarrow> \<not> isinstance val2 KList \<Longrightarrow>
   \<not> isinstance val2 KFloat \<Longrightarrow> \<not> isinstance val2 KStr \<Longrightarrow>
   partial_compare L val1 val2 = partial_compare_eq L val1 val2"
  by (subst partial_compare.simps) simp

lemma partial_compare_same_float:
  "partial_compare L (PFloat c x) (PFloat c y) = partial_compare_float L (PFloat c x) (PFloat c y)"
  by (subst partial_compare.simps) simp

lemma partial_compare_any_dicts:
  "partial_compare L (PDict c1 d1) (PDict c2 d2) =
     (if c1 = c2 then partial_compare_dict_loop L (PDict c1 d1) d2
      else \<lparr>error = Some (''Different types ('' @ type_name (make_type c1 KDict) @ '', ''
                          @ type_name (make_type c2 KDict) @ '') -> False'')\<rparr>)"
  by (subst partial_compare.simps) simp

lemma partial_compare_any_lists:
  "partial_compare L (PList c1 xs) (PList c2 ys) =
     (if c1 \<noteq> c2 then
        \<lparr>error = Some (''Different types ('' @ type_name (make_type c1 KList) @ '', ''
                        @ type_name (make_type c2 KList) @ '') -> False'')\<rparr>
      else if length xs < length ys then
        \<lparr>error = Some ''Second list is longer than first list''\<rparr>
      else partial_compare_list_loop L xs ys)"
  by (subst partial_compare.simps) simp

lemma descend_mismatch:
  "descend path val1 val2 = Some (item1, item2) \<Longrightarrow>
   item2 \<noteq> PEllipsis \<Longrightarrow> type_of item1 \<noteq> type_of item2 \<Longrightarrow>
   \<not> outcome_bool (partial_compare L val1 val2)"
proof (induction path arbitrary: val1 val2)
  case Nil
  then show ?case by (simp add: partial_compare_type_mismatch)
next
  case (Cons s path)
  show ?case
  proof (cases "type_of val1 = type_of val2")
    case False
    moreover have "val2 \<noteq> PEllipsis"
      using Cons.prems(1) by (cases s) (auto simp: isinstance_def split: if_splits)
    ultimately show ?thesis by (simp add: partial_compare_type_mismatch)
  next
    case same: True
    show ?thesis
    proof (cases s)
      case (Index i)
      with Cons.prems(1) have inst: "isinstance val2 KList"
        and i: "i < length (list_items val1)" "i < length (list_items val2)"
        and d: "descend path (list_items val1 ! i) (list_items val2 ! i) = Some (item1, item2)"
        by (auto split: if_splits)
      have "\<not> outcome_bool (partial_compare L (list_items val1 ! i) (list_items val2 ! i))"
        using Cons.IH[OF d Cons.prems(2,3)] .
      then have "\<not> outcome_bool
                   (partial_compare_list_loop L (list_items val1) (list_items val2))"
        using i by (auto simp: list_loop_ok)
      then show ?thesis
        by (simp add: partial_compare_list_dispatch[OF inst same])
    next
      case (Entry j)
      with Cons.prems(1) obtain a where inst: "isinstance val2 KDict"
        and j: "j < length (dict_items val2)"
        and a: "py_dict_get (fst (dict_items val2 ! j)) (dict_items val1) = Some a"
        and d: "descend path a (snd (dict_items val2 ! j)) = Some (item1, item2)"
        by (auto split: if_splits option.splits)
      have bad: "\<not> outcome_bool (partial_compare L a (snd (dict_items val2 ! j)))"
        using Cons.IH[OF d Cons.prems(2,3)] .
      have mem: "(fst (dict_items val2 ! j), snd (dict_items val2 ! j)) \<in> set (dict_items val2)"
        using j by simp
      have "\<not> outcome_bool (partial_compare_dict_loop L val1 (dict_items val2))"
      proof
        assume "outcome_bool (partial_compare_dict_loop L val1 (dict_items val2))"
        then have "\<exists>item1. py_dict_get (fst (dict_items val2 ! j)) (dict_items val1) = Some item1
                     \<and> outcome_bool (partial_compare L item1 (snd (dict_items val2 ! j)))"
          using mem unfolding dict_loop_ok by blast
        then show False using a bad by simp
      qed
      then show ?thesis
        by (simp add: partial_compare_dict_dispatch[OF inst same])
    qed
  qed
qed

section \<open>Partial comparison: the claims\<close>

text \<open>
  C2. Comparing two dicts: the comparison succeeds only if every key of the expected dict
  is a key of the actual one and the two items under it compare successfully; for two
  dicts of the same class that is also sufficient. The outcome depends on the actual dict
  only through its items under the keys of the expected one, so a key that only the actual
  dict has never causes a failure. A key of the expected dict that the actual one lacks
  makes the comparison fail.
\<close>

theorem partial_compare_dicts:
  "(outcome_bool (partial_compare L (PDict c1 d1) (PDict c2 d2)) \<longrightarrow>
      (\<forall>(key, item2) \<in> set d2.
         \<exists>item1. py_dict_get key d1 = Some item1
                 \<and> outcome_bool (partial_compare L item1 item2)))
   \<and> (outcome_bool (partial_compare L (PDict c d1) (PDict c d2)) =
      (\<forall>(key, item2) \<in> set d2.
         \<exists>item1. py_dict_get key d1 = Some item1
                 \<and> outcome_bool (partial_compare L item1 item2)))
   \<and> ((\<forall>(key, item2) \<in> set d2. py_dict_get key d1' = py_dict_get key d1) \<longrightarrow>
      partial_compare L (PDict c1 d1') (PDict c2 d2)
        = partial_compare L (PDict c1 d1) (PDict c2 d2))
   \<and> ((key, item2) \<in> set d2 \<and> py_dict_get key d1 = None \<longrightarrow>
      \<not> outcome_bool (partial_compare L (PDict c1 d1) (PDict c2 d2)))"
proof (intro conjI impI)
  assume "outcome_bool (partial_compare L (PDict c1 d1) (PDict c2 d2))"
  then have "outcome_bool (partial_compare_dict_loop L (PDict c1 d1) d2)"
    by (simp add: partial_compare_any_dicts split: if_splits)
  then show "\<forall>(key, item2) \<in> set d2.
         \<exists>item1. py_dict_get key d1 = Some item1
                 \<and> outcome_bool (partial_compare L item1 item2)"
    by (simp add: dict_loop_ok)
next
  show "outcome_bool (partial_compare L (PDict c d1) (PDict c d2)) =
      (\<forall>(key, item2) \<in> set d2.
         \<exists>item1. py_dict_get key d1 = Some item1
                 \<and> outcome_bool (partial_compare L item1 item2))"
    by (simp add: partial_compare_same_dict dict_loop_ok)
next
  assume "\<forall>(key, item2) \<in> set d2. py_dict_get key d1' = py_dict_get key d1"
  then have "partial_compare_dict_loop L (PDict c1 d1') d2
               = partial_compare_dict_loop L (PDict c1 d1) d2"
    by (intro dict_loop_cong) simp
  then show "partial_compare L (PDict c1 d1') (PDict c2 d2)
        = partial_compare L (PDict c1 d1) (PDict c2 d2)"
    by (auto simp: partial_compare_any_dicts)
next
  assume absent: "(key, item2) \<in> set d2 \<and> py_dict_get key d1 = None"
  show "\<not> outcome_bool (partial_compare L (PDict c1 d1) (PDict c2 d2))"
  proof
    assume "outcome_bool (partial_compare L (PDict c1 d1) (PDict c2 d2))"
    then have "outcome_bool (partial_compare_dict_loop L (PDict c1 d1) d2)"
      by (simp add: partial_compare_any_dicts split: if_splits)
    then have "\<exists>item1. py_dict_get key d1 = Some item1" 
      using absent unfolding dict_loop_ok by fastforce
    then show False using absent by simp
  qed
qed

theorem partial_compare_dicts_witness:
  "outcome_bool (partial_compare sample_lib
      (PDict Exact [(PStr Exact ''a'', PInt Exact 1), (PStr Exact ''b'', PInt Exact 2)])
      (PDict Exact [(PStr Exact ''a'', PInt Exact 1)]))
   \<and> (\<exists>item1. py_dict_get (PStr Exact ''a'')
                  [(PStr Exact ''a'', PInt Exact 1), (PStr Exact ''b'', PInt Exact 2)]
                = Some item1
              \<and> outcome_bool (partial_compare sample_lib item1 (PInt Exact 1)))
   \<and> py_dict_get (PStr Exact ''a'')
          [(PStr Exact ''a'', PInt Exact 1), (PStr Exact ''b'', PInt Exact 2)]
        = py_dict_get (PStr Exact ''a'') [(PStr Exact ''a'', PInt Exact 1)]
   \<and> partial_compare sample_lib
        (PDict Exact [(PStr Exact ''a'', PInt Exact 1), (PStr Exact ''b'', PInt Exact 2)])
        (PDict Exact [(PStr Exact ''a'', PInt Exact 1)])
      = partial_compare sample_lib
        (PDict Exact [(PStr Exact ''a'', PInt Exact 1)])
        (PDict Exact [(PStr Exact ''a'', PInt Exact 1)])
   \<and> (PStr Exact ''b'', PInt Exact 2)
        \<in> set [(PStr Exact ''a'', PInt Exact 1), (PStr Exact ''b'', PInt Exact 2)]
   \<and> py_dict_get (PStr Exact ''b'') [(PStr Exact ''a'', PInt Exact 1)] = None
   \<and> \<not> outcome_bool (partial_compare sample_lib
        (PDict Exact [(PStr Exact ''a'', PInt Exact 1)])
        (PDict Exact [(PStr Exact ''a'', PInt Exact 1), (PStr Exact ''b'', PInt Exact 2)]))"
proof -
  let ?a = "(PStr Exact ''a'', PInt Exact 1)" and ?b = "(PStr Exact ''b'', PInt Exact 2)"
  have ok: "outcome_bool (partial_compare sample_lib (PDict Exact [?a, ?b]) (PDict Exact [?a]))"
    by code_simp
  have same: "py_dict_get (PStr Exact ''a'') [?a, ?b] = py_dict_get (PStr Exact ''a'') [?a]"
    by simp
  then have agree: "\<forall>(key, item2) \<in> set [?a]. py_dict_get key [?a, ?b] = py_dict_get key [?a]"
    by simp
  have absent: "?b \<in> set [?a, ?b] \<and> py_dict_get (PStr Exact ''b'') [?a] = None"
    by simp
  note inst1 = partial_compare_dicts[where L = sample_lib and ?c1.0 = Exact and ?c2.0 = Exact
      and ?d1.0 = "[?a, ?b]" and ?d2.0 = "[?a]" and d1' = "[?a]"]
  note inst2 = partial_compare_dicts[where L = sample_lib and ?c1.0 = Exact and ?c2.0 = Exact
      and ?d1.0 = "[?a]" and ?d2.0 = "[?a]" and d1' = "[?a, ?b]"]
  note inst3 = partial_compare_dicts[where L = sample_lib and ?c1.0 = Exact and ?c2.0 = Exact
      and ?d1.0 = "[?a]" and ?d2.0 = "[?a, ?b]" and key = "PStr Exact ''b''"
      and ?item2.0 = "PInt Exact 2"]
  have "\<forall>(key, item2) \<in> set [?a].
         \<exists>item1. py_dict_get key [?a, ?b] = Some item1
                 \<and> outcome_bool (partial_compare sample_lib item1 item2)"
    using inst1 ok by blast
  then have one: "\<exists>item1. py_dict_get (PStr Exact ''a'') [?a, ?b] = Some item1
                 \<and> outcome_bool (partial_compare sample_lib item1 (PInt Exact 1))"
    by simp
  have two: "partial_compare sample_lib (PDict Exact [?a, ?b]) (PDict Exact [?a])
      = partial_compare sample_lib (PDict Exact [?a]) (PDict Exact [?a])"
    using inst2 agree by blast
  have three: "\<not> outcome_bool (partial_compare sample_lib (PDict Exact [?a]) (PDict Exact [?a, ?b]))"
    using inst3 absent by blast
  show ?thesis using ok one same two absent three by blast
qed

text \<open>
  C3. Comparing two lists: an actual list shorter than the expected one fails. Otherwise,
  for lists of the same class, the comparison succeeds exactly when the items at every
  index below the length of the expected list compare successfully, and the items of the
  actual list from that length on have no influence on the outcome.
\<close>

theorem partial_compare_lists:
  "(length xs < length ys \<longrightarrow> \<not> outcome_bool (partial_compare L (PList c xs) (PList c' ys)))
   \<and> (length ys \<le> length xs \<longrightarrow>
        outcome_bool (partial_compare L (PList c xs) (PList c ys))
          = (\<forall>i < length ys. outcome_bool (partial_compare L (xs ! i) (ys ! i))))
   \<and> (length ys \<le> length xs \<longrightarrow>
        partial_compare L (PList c (xs @ extra)) (PList c ys)
          = partial_compare L (PList c xs) (PList c ys))"
proof (intro conjI impI)
  assume "length xs < length ys"
  then show "\<not> outcome_bool (partial_compare L (PList c xs) (PList c' ys))"
    by (simp add: partial_compare_any_lists)
next
  assume "length ys \<le> length xs"
  then show "outcome_bool (partial_compare L (PList c xs) (PList c ys))
          = (\<forall>i < length ys. outcome_bool (partial_compare L (xs ! i) (ys ! i)))"
    by (auto simp: partial_compare_same_list list_loop_ok)
next
  assume len: "length ys \<le> length xs"
  have "partial_compare_list_loop L (xs @ extra) ys = partial_compare_list_loop L xs ys"
    using len list_loop_take[of L "xs @ extra" ys] list_loop_take[of L xs ys] by simp
  then show "partial_compare L (PList c (xs @ extra)) (PList c ys)
          = partial_compare L (PList c xs) (PList c ys)"
    using len by (simp add: partial_compare_same_list)
qed

theorem partial_compare_lists_witness:
  "length [PInt Exact 1] < length [PInt Exact 1, PInt Exact 2]
   \<and> \<not> outcome_bool (partial_compare sample_lib
          (PList Exact [PInt Exact 1]) (PList Exact [PInt Exact 1, PInt Exact 2]))
   \<and> length [PInt Exact 1, PInt Exact 2] \<le> length [PInt Exact 1, PInt Exact 2]
   \<and> outcome_bool (partial_compare sample_lib
          (PList Exact [PInt Exact 1, PInt Exact 2]) (PList Exact [PInt Exact 1, PInt Exact 2]))
   \<and> partial_compare sample_lib
          (PList Exact ([PInt Exact 1, PInt Exact 2] @ [PNone]))
          (PList Exact [PInt Exact 1, PInt Exact 2])
      = partial_compare sample_lib
          (PList Exact [PInt Exact 1, PInt Exact 2])
          (PList Exact [PInt Exact 1, PInt Exact 2])"
proof -
  let ?one = "[PInt Exact 1]" and ?two = "[PInt Exact 1, PInt Exact 2]"
  have short: "length ?one < length ?two" and enough: "length ?two \<le> length ?two"
    by simp_all
  have items: "\<forall>i < length ?two. outcome_bool (partial_compare sample_lib (?two ! i) (?two ! i))"
  proof (intro allI impI)
    fix i assume "i < length ?two"
    then have "i = 0 \<or> i = 1" by auto
    moreover have "outcome_bool (partial_compare sample_lib (PInt Exact 1) (PInt Exact 1))"
      by code_simp
    moreover have "outcome_bool (partial_compare sample_lib (PInt Exact 2) (PInt Exact 2))"
      by code_simp
    ultimately show "outcome_bool (partial_compare sample_lib (?two ! i) (?two ! i))"
      by auto
  qed
  note inst1 = partial_compare_lists[where L = sample_lib and xs = ?one and ys = ?two
      and c = Exact and c' = Exact]
  note inst2 = partial_compare_lists[where L = sample_lib and xs = ?two and ys = ?two
      and c = Exact and c' = Exact and extra = "[PNone]"]
  have a: "\<not> outcome_bool (partial_compare sample_lib (PList Exact ?one) (PList Exact ?two))"
    using inst1 short by blast
  have b: "outcome_bool (partial_compare sample_lib (PList Exact ?two) (PList Exact ?two))"
    using inst2 enough items by blast
  have c: "partial_compare sample_lib (PList Exact (?two @ [PNone])) (PList Exact ?two)
      = partial_compare sample_lib (PList Exact ?two) (PList Exact ?two)"
    using inst2 enough by blast
  show ?thesis using short a enough b c by blast
qed

text \<open>
  C4. When the expected value is not the ellipsis and its type differs from the type of the
  actual value, the comparison fails, whether or not the two are equal as values, and it
  does so at every position that the comparison gets to inside nested lists and dicts
  (\<open>descend\<close>); at the top the error names the two types. Comparing the integer \<open>1\<close> with
  the string \<open>"1"\<close> fails.
\<close>

theorem partial_compare_type_mismatch_fails:
  "(descend path val1 val2 = Some (item1, item2)
      \<and> item2 \<noteq> PEllipsis \<and> type_of item1 \<noteq> type_of item2
        \<longrightarrow> \<not> outcome_bool (partial_compare L val1 val2))
   \<and> (val2 \<noteq> PEllipsis \<and> type_of val1 \<noteq> type_of val2
        \<longrightarrow> partial_compare L val1 val2 =
              \<lparr>error = Some (''Different types ('' @ type_name (type_of val1) @ '', ''
                              @ type_name (type_of val2) @ '') -> False'')\<rparr>)
   \<and> partial_compare L (PInt Exact 1) (PStr Exact ''1'')
        = \<lparr>error = Some ''Different types (int, str) -> False''\<rparr>"
proof (intro conjI impI)
  assume "descend path val1 val2 = Some (item1, item2)
      \<and> item2 \<noteq> PEllipsis \<and> type_of item1 \<noteq> type_of item2"
  then show "\<not> outcome_bool (partial_compare L val1 val2)"
    using descend_mismatch by blast
next
  assume "val2 \<noteq> PEllipsis \<and> type_of val1 \<noteq> type_of val2"
  then show "partial_compare L val1 val2 =
              \<lparr>error = Some (''Different types ('' @ type_name (type_of val1) @ '', ''
                              @ type_name (type_of val2) @ '') -> False'')\<rparr>"
    by (simp add: partial_compare_type_mismatch)
next
  show "partial_compare L (PInt Exact 1) (PStr Exact ''1'')
        = \<lparr>error = Some ''Different types (int, str) -> False''\<rparr>"
    by (simp add: partial_compare_type_mismatch)
qed

theorem partial_compare_type_mismatch_fails_witness:
  "descend [Entry 0, Index 1]
       (PDict Exact [(PStr Exact ''k'', PList Exact [PNone, PBool True])])
       (PDict Exact [(PStr Exact ''k'', PList Exact [PNone, PInt Exact 1])])
     = Some (PBool True, PInt Exact 1)
   \<and> PInt Exact 1 \<noteq> PEllipsis
   \<and> type_of (PBool True) \<noteq> type_of (PInt Exact 1)
   \<and> py_eq (PBool True) (PInt Exact 1)
   \<and> \<not> outcome_bool (partial_compare sample_lib
         (PDict Exact [(PStr Exact ''k'', PList Exact [PNone, PBool True])])
         (PDict Exact [(PStr Exact ''k'', PList Exact [PNone, PInt Exact 1])]))
   \<and> partial_compare sample_lib (PBool True) (PInt Exact 1)
       = \<lparr>error = Some ''Different types (bool, int) -> False''\<rparr>"
proof -
  let ?a = "PDict Exact [(PStr Exact ''k'', PList Exact [PNone, PBool True])]"
  let ?e = "PDict Exact [(PStr Exact ''k'', PList Exact [PNone, PInt Exact 1])]"
  have d: "descend [Entry 0, Index 1] ?a ?e = Some (PBool True, PInt Exact 1)"
    by simp
  have t: "PInt Exact 1 \<noteq> PEllipsis \<and> type_of (PBool True) \<noteq> type_of (PInt Exact 1)"
    by simp
  have eq: "py_eq (PBool True) (PInt Exact 1)" by simp
  note nested = partial_compare_type_mismatch_fails[where L = sample_lib
      and path = "[Entry 0, Index 1]" and ?val1.0 = ?a and ?val2.0 = ?e
      and ?item1.0 = "PBool True" and ?item2.0 = "PInt Exact 1"]
  note top = partial_compare_type_mismatch_fails[where L = sample_lib
      and ?val1.0 = "PBool True" and ?val2.0 = "PInt Exact 1"]
  have one: "\<not> outcome_bool (partial_compare sample_lib ?a ?e)"
    using nested d t by blast
  have "partial_compare sample_lib (PBool True) (PInt Exact 1) =
          \<lparr>error = Some (''Different types ('' @ type_name (type_of (PBool True)) @ '', ''
                          @ type_name (type_of (PInt Exact 1)) @ '') -> False'')\<rparr>"
    using top t by blast
  then have two: "partial_compare sample_lib (PBool True) (PInt Exact 1)
       = \<lparr>error = Some ''Different types (bool, int) -> False''\<rparr>"
    by simp
  show ?thesis using d t eq one two by blast
qed

text \<open>
  C5. With the ellipsis as the expected value the comparison succeeds whatever the actual
  value is; inside a list or a dict an expected ellipsis is passed over (in a dict, once the
  key has been found in the actual dict).
\<close>

theorem partial_compare_ellipsis_matches:
  "partial_compare L val1 PEllipsis = \<lparr>error = None\<rparr>
   \<and> outcome_bool (partial_compare L val1 PEllipsis)
   \<and> partial_compare_list_loop L (item1 # items1) (PEllipsis # items2)
       = partial_compare_list_loop L items1 items2
   \<and> (py_dict_get key (dict_items val1) = Some item1 \<longrightarrow>
        partial_compare_dict_loop L val1 ((key, PEllipsis) # rest)
          = partial_compare_dict_loop L val1 rest)"
  by (simp add: partial_compare_ellipsis Let_def)

theorem partial_compare_ellipsis_matches_witness:
  "py_dict_get (PStr Exact ''k'') (dict_items (PDict Exact [(PStr Exact ''k'', PNone)]))
     = Some PNone
   \<and> partial_compare_dict_loop sample_lib (PDict Exact [(PStr Exact ''k'', PNone)])
        ((PStr Exact ''k'', PEllipsis) # [])
      = partial_compare_dict_loop sample_lib (PDict Exact [(PStr Exact ''k'', PNone)]) []
   \<and> outcome_bool (partial_compare sample_lib
        (PDict Exact [(PStr Exact ''k'', PNone)]) (PDict Exact [(PStr Exact ''k'', PEllipsis)]))
   \<and> outcome_bool (partial_compare sample_lib
        (PList Exact [PStr Exact ''x'', PInt Exact 3]) (PList Exact [PEllipsis, PEllipsis]))"
proof -
  have g: "py_dict_get (PStr Exact ''k'') (dict_items (PDict Exact [(PStr Exact ''k'', PNone)]))
     = Some PNone"
    by simp
  note inst = partial_compare_ellipsis_matches[where L = sample_lib
      and ?val1.0 = "PDict Exact [(PStr Exact ''k'', PNone)]" and key = "PStr Exact ''k''"
      and ?item1.0 = PNone and rest = "[]"]
  have one: "partial_compare_dict_loop sample_lib (PDict Exact [(PStr Exact ''k'', PNone)])
        ((PStr Exact ''k'', PEllipsis) # [])
      = partial_compare_dict_loop sample_lib (PDict Exact [(PStr Exact ''k'', PNone)]) []"
    using inst g by blast
  have two: "outcome_bool (partial_compare sample_lib
        (PDict Exact [(PStr Exact ''k'', PNone)]) (PDict Exact [(PStr Exact ''k'', PEllipsis)]))"
    using one by (simp add: partial_compare_same_dict)
  have three: "outcome_bool (partial_compare sample_lib
        (PList Exact [PStr Exact ''x'', PInt Exact 3]) (PList Exact [PEllipsis, PEllipsis]))"
    by code_simp
  show ?thesis using g one two three by blast
qed

text \<open>
  C6. The outcome holds an error that is either absent or a message, and it counts as true
  exactly when the error is absent. In a list and in a dict the first mismatch in the order
  of iteration decides: the outcome of the whole comparison is the outcome of that item (or
  the message about that missing key), and nothing after it is looked at.
\<close>

theorem partial_compare_first_mismatch:
  "(outcome_bool outcome = (error outcome = None))
   \<and> ((\<not> outcome_bool outcome) = (\<exists>msg. error outcome = Some msg))
   \<and> (j < length ys \<and> length ys \<le> length xs
        \<and> \<not> outcome_bool (partial_compare L (xs ! j) (ys ! j))
        \<and> (\<forall>i < j. outcome_bool (partial_compare L (xs ! i) (ys ! i)))
      \<longrightarrow> partial_compare L (PList c xs) (PList c ys) = partial_compare L (xs ! j) (ys ! j))
   \<and> ((\<forall>(key', item') \<in> set before.
          \<exists>item1'. py_dict_get key' d1 = Some item1'
                   \<and> outcome_bool (partial_compare L item1' item'))
        \<and> py_dict_get key d1 = Some item1
        \<and> \<not> outcome_bool (partial_compare L item1 item2)
      \<longrightarrow> partial_compare L (PDict c d1) (PDict c (before @ (key, item2) # rest))
            = partial_compare L item1 item2)
   \<and> ((\<forall>(key', item') \<in> set before.
          \<exists>item1'. py_dict_get key' d1 = Some item1'
                   \<and> outcome_bool (partial_compare L item1' item'))
        \<and> py_dict_get key d1 = None
      \<longrightarrow> partial_compare L (PDict c d1) (PDict c (before @ (key, item2) # rest))
            = \<lparr>error = Some (''Key '' @ repr L key
                              @ '' is in second dict but not in first!'')\<rparr>)"
proof (intro conjI impI)
  show "outcome_bool outcome = (error outcome = None)"
    by (simp add: outcome_bool_def)
next
  show "(\<not> outcome_bool outcome) = (\<exists>msg. error outcome = Some msg)"
    by (simp add: outcome_bool_def)
next
  assume h: "j < length ys \<and> length ys \<le> length xs
        \<and> \<not> outcome_bool (partial_compare L (xs ! j) (ys ! j))
        \<and> (\<forall>i < j. outcome_bool (partial_compare L (xs ! i) (ys ! i)))"
  then have "partial_compare_list_loop L xs ys = partial_compare L (xs ! j) (ys ! j)"
    by (intro list_loop_first) auto
  then show "partial_compare L (PList c xs) (PList c ys) = partial_compare L (xs ! j) (ys ! j)"
    using h by (simp add: partial_compare_same_list)
next
  assume h: "(\<forall>(key', item') \<in> set before.
          \<exists>item1'. py_dict_get key' d1 = Some item1'
                   \<and> outcome_bool (partial_compare L item1' item'))
        \<and> py_dict_get key d1 = Some item1
        \<and> \<not> outcome_bool (partial_compare L item1 item2)"
  then have "partial_compare_dict_loop L (PDict c d1) (before @ (key, item2) # rest)
        = partial_compare_dict_loop L (PDict c d1) ((key, item2) # rest)"
    by (intro dict_loop_first) simp
  then show "partial_compare L (PDict c d1) (PDict c (before @ (key, item2) # rest))
            = partial_compare L item1 item2"
    using h by (simp add: partial_compare_same_dict Let_def)
next
  assume h: "(\<forall>(key', item') \<in> set before.
          \<exists>item1'. py_dict_get key' d1 = Some item1'
                   \<and> outcome_bool (partial_compare L item1' item'))
        \<and> py_dict_get key d1 = None"
  then have "partial_compare_dict_loop L (PDict c d1) (before @ (key, item2) # rest)
        = partial_compare_dict_loop L (PDict c d1) ((key, item2) # rest)"
    by (intro dict_loop_first) simp
  then show "partial_compare L (PDict c d1) (PDict c (before @ (key, item2) # rest))
            = \<lparr>error = Some (''Key '' @ repr L key
                              @ '' is in second dict but not in first!'')\<rparr>"
    using h by (simp add: partial_compare_same_dict)
qed

theorem partial_compare_first_mismatch_witness:
  "(1::nat) < length [PInt Exact 1, PInt Exact 5, PStr Exact ''x'']
   \<and> length [PInt Exact 1, PInt Exact 5, PStr Exact ''x'']
       \<le> length [PInt Exact 1, PInt Exact 2, PInt Exact 3]
   \<and> \<not> outcome_bool (partial_compare sample_lib (PInt Exact 2) (PInt Exact 5))
   \<and> outcome_bool (partial_compare sample_lib (PInt Exact 1) (PInt Exact 1))
   \<and> partial_compare sample_lib
        (PList Exact [PInt Exact 1, PInt Exact 2, PInt Exact 3])
        (PList Exact [PInt Exact 1, PInt Exact 5, PStr Exact ''x''])
      = \<lparr>error = Some ''int != int''\<rparr>
   \<and> partial_compare sample_lib
        (PDict Exact [(PStr Exact ''a'', PInt Exact 1), (PStr Exact ''b'', PInt Exact 2)])
        (PDict Exact ([(PStr Exact ''a'', PInt Exact 1)]
                      @ (PStr Exact ''b'', PStr Exact ''2'') # [(PStr Exact ''z'', PNone)]))
      = \<lparr>error = Some ''Different types (int, str) -> False''\<rparr>
   \<and> partial_compare sample_lib
        (PDict Exact [(PStr Exact ''a'', PInt Exact 1)])
        (PDict Exact ([(PStr Exact ''a'', PInt Exact 1)]
                      @ (PStr Exact ''b'', PInt Exact 2) # [(PStr Exact ''z'', PNone)]))
      = \<lparr>error = Some ''Key str is in second dict but not in first!''\<rparr>"
proof -
  let ?xs = "[PInt Exact 1, PInt Exact 2, PInt Exact 3]"
  let ?ys = "[PInt Exact 1, PInt Exact 5, PStr Exact ''x'']"
  let ?a = "(PStr Exact ''a'', PInt Exact 1)"
  have ok1: "outcome_bool (partial_compare sample_lib (PInt Exact 1) (PInt Exact 1))"
    by code_simp
  have bad: "partial_compare sample_lib (PInt Exact 2) (PInt Exact 5)
               = \<lparr>error = Some ''int != int''\<rparr>"
    by code_simp
  have bad2: "partial_compare sample_lib (PInt Exact 2) (PStr Exact ''2'')
               = \<lparr>error = Some ''Different types (int, str) -> False''\<rparr>"
    by code_simp
  have len: "(1::nat) < length ?ys \<and> length ?ys \<le> length ?xs" by simp
  have hyp_list: "(1::nat) < length ?ys \<and> length ?ys \<le> length ?xs
        \<and> \<not> outcome_bool (partial_compare sample_lib (?xs ! 1) (?ys ! 1))
        \<and> (\<forall>i < 1. outcome_bool (partial_compare sample_lib (?xs ! i) (?ys ! i)))"
    using ok1 bad by simp
  note inst_list = partial_compare_first_mismatch[where L = sample_lib and xs = ?xs
      and ys = ?ys and j = 1 and c = Exact]
  have one: "partial_compare sample_lib (PList Exact ?xs) (PList Exact ?ys)
      = \<lparr>error = Some ''int != int''\<rparr>"
    using inst_list hyp_list bad by simp
  have before_ok: "\<forall>(key', item') \<in> set [?a].
          \<exists>item1'. py_dict_get key' [?a, (PStr Exact ''b'', PInt Exact 2)] = Some item1'
                   \<and> outcome_bool (partial_compare sample_lib item1' item')"
    using ok1 by simp
  have before_ok': "\<forall>(key', item') \<in> set [?a].
          \<exists>item1'. py_dict_get key' [?a] = Some item1'
                   \<and> outcome_bool (partial_compare sample_lib item1' item')"
    using ok1 by simp
  note inst_dict = partial_compare_first_mismatch[where L = sample_lib and c = Exact
      and ?d1.0 = "[?a, (PStr Exact ''b'', PInt Exact 2)]" and before = "[?a]"
      and key = "PStr Exact ''b''" and ?item1.0 = "PInt Exact 2"
      and ?item2.0 = "PStr Exact ''2''" and rest = "[(PStr Exact ''z'', PNone)]"]
  have two: "partial_compare sample_lib
        (PDict Exact [?a, (PStr Exact ''b'', PInt Exact 2)])
        (PDict Exact ([?a] @ (PStr Exact ''b'', PStr Exact ''2'') # [(PStr Exact ''z'', PNone)]))
      = \<lparr>error = Some ''Different types (int, str) -> False''\<rparr>"
    using inst_dict before_ok bad2 by simp
  note inst_key = partial_compare_first_mismatch[where L = sample_lib and c = Exact
      and ?d1.0 = "[?a]" and before = "[?a]"
      and key = "PStr Exact ''b''" and ?item2.0 = "PInt Exact 2"
      and rest = "[(PStr Exact ''z'', PNone)]"]
  have three: "partial_compare sample_lib
        (PDict Exact [?a])
        (PDict Exact ([?a] @ (PStr Exact ''b'', PInt Exact 2) # [(PStr Exact ''z'', PNone)]))
      = \<lparr>error = Some ''Key str is in second dict but not in first!''\<rparr>"
    using inst_key before_ok' by (simp add: sample_lib_def)
  show ?thesis using len ok1 bad one two three by simp
qed

text \<open>
  C9. The claim as stated, for every expected value whose type is none of \<open>dict\<close>, \<open>list\<close>,
  \<open>float\<close>, \<open>str\<close>, fails for a class derived from one of them: the handlers are chosen
  with \<open>isinstance\<close>. Two instances of \<^verbatim>\<open>class D(dict): pass\<close>, the actual one with the
  items \<open>a: 1, b: 2\<close> and the expected one with \<open>a: 1\<close>, are compared as dicts and the
  comparison succeeds, though they are not equal.
\<close>

theorem partial_compare_eq_subclass_counterexample:
  "PDict (Derived ''D'') [(PStr Exact ''a'', PInt Exact 1)] \<noteq> PEllipsis
   \<and> type_of (PDict (Derived ''D'') [(PStr Exact ''a'', PInt Exact 1),
                                      (PStr Exact ''b'', PInt Exact 2)])
       = type_of (PDict (Derived ''D'') [(PStr Exact ''a'', PInt Exact 1)])
   \<and> type_of (PDict (Derived ''D'') [(PStr Exact ''a'', PInt Exact 1)]) \<noteq> Builtin KDict
   \<and> type_of (PDict (Derived ''D'') [(PStr Exact ''a'', PInt Exact 1)]) \<noteq> Builtin KList
   \<and> type_of (PDict (Derived ''D'') [(PStr Exact ''a'', PInt Exact 1)]) \<noteq> Builtin KFloat
   \<and> type_of (PDict (Derived ''D'') [(PStr Exact ''a'', PInt Exact 1)]) \<noteq> Builtin KStr
   \<and> outcome_bool (partial_compare sample_lib
         (PDict (Derived ''D'') [(PStr Exact ''a'', PInt Exact 1),
                                 (PStr Exact ''b'', PInt Exact 2)])
         (PDict (Derived ''D'') [(PStr Exact ''a'', PInt Exact 1)]))
   \<and> \<not> py_eq (PDict (Derived ''D'') [(PStr Exact ''a'', PInt Exact 1),
                                       (PStr Exact ''b'', PInt Exact 2)])
              (PDict (Derived ''D'') [(PStr Exact ''a'', PInt Exact 1)])"
proof -
  have "outcome_bool (partial_compare sample_lib
         (PDict (Derived ''D'') [(PStr Exact ''a'', PInt Exact 1),
                                 (PStr Exact ''b'', PInt Exact 2)])
         (PDict (Derived ''D'') [(PStr Exact ''a'', PInt Exact 1)]))"
    by code_simp
  then show ?thesis by simp
qed

text \<open>
  C9, amended. When the expected value is not the ellipsis, has the type of the actual
  value, and is not an instance of \<open>dict\<close>, \<open>list\<close>, \<open>float\<close> or \<open>str\<close> (of the type or of
  a class derived from it), the comparison succeeds exactly when the two values are equal
  by \<open>==\<close>, and otherwise its error is the message \<open>repr(val1) != repr(val2)\<close>.
\<close>

theorem partial_compare_falls_back_to_eq:
  "val2 \<noteq> PEllipsis \<and> type_of val1 = type_of val2
   \<and> \<not> isinstance val2 KDict \<and> \<not> isinstance val2 KList
   \<and> \<not> isinstance val2 KFloat \<and> \<not> isinstance val2 KStr
   \<longrightarrow> outcome_bool (partial_compare L val1 val2) = py_eq val1 val2
       \<and> (\<not> py_eq val1 val2 \<longrightarrow>
            partial_compare L val1 val2
              = \<lparr>error = Some (repr L val1 @ '' != '' @ repr L val2)\<rparr>)"
  by (auto simp: partial_compare_eq_dispatch partial_compare_eq_def)

theorem partial_compare_falls_back_to_eq_witness:
  "PTuple Exact [PInt Exact 1, PDict Exact []] \<noteq> PEllipsis
   \<and> type_of (PTuple Exact [PInt Exact 1, PDict Exact [(PNone, PNone)]])
       = type_of (PTuple Exact [PInt Exact 1, PDict Exact []])
   \<and> \<not> isinstance (PTuple Exact [PInt Exact 1, PDict Exact []]) KDict
   \<and> \<not> isinstance (PTuple Exact [PInt Exact 1, PDict Exact []]) KList
   \<and> \<not> isinstance (PTuple Exact [PInt Exact 1, PDict Exact []]) KFloat
   \<and> \<not> isinstance (PTuple Exact [PInt Exact 1, PDict Exact []]) KStr
   \<and> \<not> py_eq (PTuple Exact [PInt Exact 1, PDict Exact [(PNone, PNone)]])
              (PTuple Exact [PInt Exact 1, PDict Exact []])
   \<and> partial_compare sample_lib
        (PTuple Exact [PInt Exact 1, PDict Exact [(PNone, PNone)]])
        (PTuple Exact [PInt Exact 1, PDict Exact []])
      = \<lparr>error = Some ''tuple != tuple''\<rparr>
   \<and> outcome_bool (partial_compare sample_lib (PBool True) (PBool True))"
proof -
  let ?a = "PTuple Exact [PInt Exact 1, PDict Exact [(PNone, PNone)]]"
  let ?e = "PTuple Exact [PInt Exact 1, PDict Exact []]"
  have hyp: "?e \<noteq> PEllipsis \<and> type_of ?a = type_of ?e
     \<and> \<not> isinstance ?e KDict \<and> \<not> isinstance ?e KList
     \<and> \<not> isinstance ?e KFloat \<and> \<not> isinstance ?e KStr"
    by simp
  have ne: "\<not> py_eq ?a ?e" by simp
  have "partial_compare sample_lib ?a ?e
          = \<lparr>error = Some (repr sample_lib ?a @ '' != '' @ repr sample_lib ?e)\<rparr>"
    using partial_compare_falls_back_to_eq[where L = sample_lib and ?val1.0 = ?a
        and ?val2.0 = ?e] hyp ne by blast
  then have one: "partial_compare sample_lib ?a ?e = \<lparr>error = Some ''tuple != tuple''\<rparr>"
    by (simp add: sample_lib_def)
  have hyp2: "PBool True \<noteq> PEllipsis \<and> type_of (PBool True) = type_of (PBool True)
     \<and> \<not> isinstance (PBool True) KDict \<and> \<not> isinstance (PBool True) KList
     \<and> \<not> isinstance (PBool True) KFloat \<and> \<not> isinstance (PBool True) KStr"
    by simp
  have "outcome_bool (partial_compare sample_lib (PBool True) (PBool True))
          = py_eq (PBool True) (PBool True)"
    using partial_compare_falls_back_to_eq[where L = sample_lib and ?val1.0 = "PBool True"
        and ?val2.0 = "PBool True"] hyp2 by blast
  then have two: "outcome_bool (partial_compare sample_lib (PBool True) (PBool True))"
    by simp
  show ?thesis using hyp ne one two by blast
qed


text \<open>
  C7. Two floats of the same type are compared by \<open>val1 == pytest.approx(val2)\<close> and by
  nothing else: the comparison succeeds exactly when that test holds, whatever \<open>==\<close> says.
  With \<open>pytest.approx\<close> at its default tolerances, it succeeds exactly when the two
  values differ by no more than \<open>max(1e-6 * |expected|, 1e-12)\<close>, so whenever the actual
  value is approximately equal to the expected one; \<open>0.1 + 0.2\<close> against \<open>0.3\<close> succeeds
  though the two floats are not equal. Otherwise the error is the float comparison message.
\<close>

theorem partial_compare_floats_approx:
  "outcome_bool (partial_compare L (PFloat c a) (PFloat c e))
     = approx L (PFloat c a) (PFloat c e)
   \<and> (approx L = pytest_approx \<longrightarrow>
        outcome_bool (partial_compare L (PFloat c (Finite x)) (PFloat c (Finite y)))
          = (\<bar>x - y\<bar> \<le> max (\<bar>y\<bar> / 10 ^ 6) (1 / 10 ^ 12)))
   \<and> (\<not> approx L (PFloat c a) (PFloat c e) \<longrightarrow>
        partial_compare L (PFloat c a) (PFloat c e)
          = \<lparr>error = Some (repr L (PFloat c a) @ '' != '' @ repr L (PFloat c e)
                            @ '' (float comparison)'')\<rparr>)"
proof (intro conjI impI)
  show "outcome_bool (partial_compare L (PFloat c a) (PFloat c e))
     = approx L (PFloat c a) (PFloat c e)"
    by (simp add: partial_compare_same_float partial_compare_float_def)
next
  assume "approx L = pytest_approx"
  then show "outcome_bool (partial_compare L (PFloat c (Finite x)) (PFloat c (Finite y)))
          = (\<bar>x - y\<bar> \<le> max (\<bar>y\<bar> / 10 ^ 6) (1 / 10 ^ 12))"
    by (simp add: partial_compare_same_float partial_compare_float_def)
next
  assume "\<not> approx L (PFloat c a) (PFloat c e)"
  then show "partial_compare L (PFloat c a) (PFloat c e)
          = \<lparr>error = Some (repr L (PFloat c a) @ '' != '' @ repr L (PFloat c e)
                            @ '' (float comparison)'')\<rparr>"
    by (simp add: partial_compare_same_float partial_compare_float_def)
qed

theorem partial_compare_floats_approx_witness:
  "approx pytest_lib = pytest_approx
   \<and> \<bar>(1351079888211149 / 4503599627370496 :: rat) - 5404319552844595 / 18014398509481984\<bar>
        \<le> max (\<bar>5404319552844595 / 18014398509481984\<bar> / 10 ^ 6) (1 / 10 ^ 12)
   \<and> \<not> py_eq (PFloat Exact (Finite (1351079888211149 / 4503599627370496)))
              (PFloat Exact (Finite (5404319552844595 / 18014398509481984)))
   \<and> outcome_bool (partial_compare pytest_lib
         (PFloat Exact (Finite (1351079888211149 / 4503599627370496)))
         (PFloat Exact (Finite (5404319552844595 / 18014398509481984))))
   \<and> \<not> approx pytest_lib (PFloat Exact (Finite (3 / 10))) (PFloat Exact (Finite (31 / 100)))
   \<and> partial_compare pytest_lib (PFloat Exact (Finite (3 / 10))) (PFloat Exact (Finite (31 / 100)))
       = \<lparr>error = Some ''float != float (float comparison)''\<rparr>"
proof -
  let ?x = "1351079888211149 / 4503599627370496 :: rat"
  let ?y = "5404319552844595 / 18014398509481984 :: rat"
  have lib: "approx pytest_lib = pytest_approx" by (simp add: pytest_lib_def)
  have close: "\<bar>?x - ?y\<bar> \<le> max (\<bar>?y\<bar> / 10 ^ 6) (1 / 10 ^ 12)" by simp
  have ne: "\<not> py_eq (PFloat Exact (Finite ?x)) (PFloat Exact (Finite ?y))" by simp
  have far: "\<not> approx pytest_lib (PFloat Exact (Finite (3 / 10))) (PFloat Exact (Finite (31 / 100)))"
    by (simp add: pytest_lib_def)
  note inst = partial_compare_floats_approx[where L = pytest_lib and c = Exact
      and x = ?x and y = ?y and a = "Finite (3 / 10)" and e = "Finite (31 / 100)"]
  have one: "outcome_bool (partial_compare pytest_lib
         (PFloat Exact (Finite ?x)) (PFloat Exact (Finite ?y)))"
    using inst lib close by blast
  have "partial_compare pytest_lib (PFloat Exact (Finite (3 / 10))) (PFloat Exact (Finite (31 / 100)))
          = \<lparr>error = Some (repr pytest_lib (PFloat Exact (Finite (3 / 10))) @ '' != ''
                            @ repr pytest_lib (PFloat Exact (Finite (31 / 100)))
                            @ '' (float comparison)'')\<rparr>"
    using inst far by blast
  then have two: "partial_compare pytest_lib (PFloat Exact (Finite (3 / 10)))
                    (PFloat Exact (Finite (31 / 100)))
       = \<lparr>error = Some ''float != float (float comparison)''\<rparr>"
    by (simp add: pytest_lib_def)
  show ?thesis using lib close ne one far two by blast
qed


section \<open>The packaging script: cleanup\<close>

lemma freeze_finally_path:
  "snd (freeze_finally (Some basedir) fs) (git_commit_id_path basedir) \<noteq> Some RegularFile"
  by (auto simp: freeze_finally_def Let_def os_path_exists_def os_remove_def
           split: option.splits fs_node.splits)

lemma freeze_finally_None: "freeze_finally None fs = (None, fs)"
  by (simp add: freeze_finally_def)

lemma freeze_script_snd:
  "snd (freeze_script BASEDIR write_git_file cx_setup fs)
     = snd (freeze_finally BASEDIR (snd (freeze_try write_git_file cx_setup fs)))"
  by (auto simp: freeze_script_def split: prod.splits option.splits)

lemma freeze_script_fst:
  "fst (freeze_script BASEDIR write_git_file cx_setup fs)
     = (case fst (freeze_finally BASEDIR (snd (freeze_try write_git_file cx_setup fs))) of
          Some cleanup_exc \<Rightarrow> Some cleanup_exc
        | None \<Rightarrow> fst (freeze_try write_git_file cx_setup fs))"
  by (auto simp: freeze_script_def split: prod.splits option.splits)

lemma git_commit_id_path_example:
  "git_commit_id_path ''/src/scripts/..'' = ''/src/scripts/../qutebrowser/git-commit-id''"
  by (simp add: git_commit_id_path_def os_path_join_def os_path_join2_def)

text \<open>
  C8. The claim as stated, that the cleanup removes the generated file unconditionally,
  fails when \<open>BASEDIR\<close> is \<open>None\<close>: the \<open>finally\<close> body is guarded by
  \<open>if BASEDIR is not None\<close>, so the file that \<open>write_git_file\<close> has written is still there
  after the script, here on the success path.
\<close>

theorem freeze_cleanup_counterexample:
  "fst (freeze_script None (sample_write_git_file ''./qutebrowser/git-commit-id'')
          sample_setup_ok Map.empty) = None
   \<and> snd (freeze_script None (sample_write_git_file ''./qutebrowser/git-commit-id'')
          sample_setup_ok Map.empty) ''./qutebrowser/git-commit-id'' = Some RegularFile"
  by (simp add: freeze_script_def freeze_try_def freeze_finally_def
        sample_write_git_file_def sample_setup_ok_def)

text \<open>
  C8, amended. When \<open>BASEDIR\<close> is not \<open>None\<close>, no regular file is left at
  \<open>BASEDIR/qutebrowser/git-commit-id\<close> after the script, whether \<open>write_git_file\<close> and
  \<open>setup\<close> returned or raised. A failure of either still leaves the script as an exception:
  the same one, unless the cleanup raises itself, which it does only for a directory at that
  path. When \<open>BASEDIR\<close> is \<open>None\<close> the script is the \<open>try\<close> body alone and nothing is
  removed.
\<close>

theorem freeze_cleanup_when_basedir:
  "snd (freeze_script (Some basedir) write_git_file cx_setup fs) (git_commit_id_path basedir)
     \<noteq> Some RegularFile
   \<and> (fst (freeze_try write_git_file cx_setup fs) \<noteq> None
        \<longrightarrow> fst (freeze_script BASEDIR write_git_file cx_setup fs) \<noteq> None)
   \<and> (fst (freeze_try write_git_file cx_setup fs) = Some exc
        \<and> snd (freeze_try write_git_file cx_setup fs) (git_commit_id_path basedir) \<noteq> Some Directory
        \<longrightarrow> fst (freeze_script (Some basedir) write_git_file cx_setup fs) = Some exc)
   \<and> freeze_script None write_git_file cx_setup fs = freeze_try write_git_file cx_setup fs"
proof (intro conjI impI)
  show "snd (freeze_script (Some basedir) write_git_file cx_setup fs) (git_commit_id_path basedir)
     \<noteq> Some RegularFile"
    by (simp only: freeze_script_snd freeze_finally_path not_False_eq_True)
next
  assume "fst (freeze_try write_git_file cx_setup fs) \<noteq> None"
  then show "fst (freeze_script BASEDIR write_git_file cx_setup fs) \<noteq> None"
    by (auto simp: freeze_script_fst split: option.splits)
next
  assume h: "fst (freeze_try write_git_file cx_setup fs) = Some exc
        \<and> snd (freeze_try write_git_file cx_setup fs) (git_commit_id_path basedir) \<noteq> Some Directory"
  then have "fst (freeze_finally (Some basedir) (snd (freeze_try write_git_file cx_setup fs))) = None"
    by (auto simp: freeze_finally_def Let_def os_path_exists_def os_remove_def
             split: option.splits fs_node.splits)
  then show "fst (freeze_script (Some basedir) write_git_file cx_setup fs) = Some exc"
    using h by (simp add: freeze_script_fst)
next
  show "freeze_script None write_git_file cx_setup fs = freeze_try write_git_file cx_setup fs"
    by (cases "freeze_try write_git_file cx_setup fs")
       (simp add: freeze_script_def freeze_finally_None)
qed

theorem freeze_cleanup_when_basedir_witness:
  "fst (freeze_try (sample_write_git_file ''/src/scripts/../qutebrowser/git-commit-id'')
          sample_setup_fails Map.empty) = Some (StepFailed ''setup'')
   \<and> snd (freeze_try (sample_write_git_file ''/src/scripts/../qutebrowser/git-commit-id'')
          sample_setup_fails Map.empty) (git_commit_id_path ''/src/scripts/..'')
       = Some RegularFile
   \<and> fst (freeze_script (Some ''/src/scripts/..'')
          (sample_write_git_file ''/src/scripts/../qutebrowser/git-commit-id'')
          sample_setup_fails Map.empty) = Some (StepFailed ''setup'')
   \<and> snd (freeze_script (Some ''/src/scripts/..'')
          (sample_write_git_file ''/src/scripts/../qutebrowser/git-commit-id'')
          sample_setup_fails Map.empty) (git_commit_id_path ''/src/scripts/..'')
       \<noteq> Some RegularFile"
proof -
  let ?w = "sample_write_git_file ''/src/scripts/../qutebrowser/git-commit-id''"
  have a: "fst (freeze_try ?w sample_setup_fails Map.empty) = Some (StepFailed ''setup'')"
    by (simp add: freeze_try_def sample_write_git_file_def sample_setup_fails_def)
  have b: "snd (freeze_try ?w sample_setup_fails Map.empty)
             (git_commit_id_path ''/src/scripts/..'') = Some RegularFile"
    by (simp add: freeze_try_def git_commit_id_path_example
          sample_write_git_file_def sample_setup_fails_def)
  note inst = freeze_cleanup_when_basedir[where basedir = "''/src/scripts/..''"
      and write_git_file = ?w and cx_setup = sample_setup_fails and fs = Map.empty
      and exc = "StepFailed ''setup''" and BASEDIR = "Some ''/src/scripts/..''"]
  have c: "fst (freeze_script (Some ''/src/scripts/..'') ?w sample_setup_fails Map.empty)
             = Some (StepFailed ''setup'')"
    using inst a b by simp
  have d: "snd (freeze_script (Some ''/src/scripts/..'') ?w sample_setup_fails Map.empty)
             (git_commit_id_path ''/src/scripts/..'') \<noteq> Some RegularFile"
    using inst by blast
  show ?thesis using a b c d by blast
qed

end
